theory Spec2Isabelle
  imports Complex_Main
begin

section \<open>Data model\<close>

text \<open>
  The pipeline under study is \<^verbatim>\<open>process_dataframe\<close> of \<^verbatim>\<open>central.py\<close>: it takes the
  frame read from a spreadsheet and turns it into the long table the charts are drawn
  from, emitting warnings on the way.

  A Python string is the list of its code points; \<open>ascii\<close> writes one from its ASCII
  characters.
\<close>

type_synonym ustring = "int list"

definition ascii :: "string \<Rightarrow> ustring" where
  "ascii s = map of_char s"

text \<open>
  A cell of a frame is missing (\<^verbatim>\<open>NaN\<close> or \<^verbatim>\<open>None\<close>, what \<^verbatim>\<open>isna\<close> answers
  \<^verbatim>\<open>True\<close> on; an empty cell of the spreadsheet is read as such), a number, or a text.
  A number is a float that is not \<^verbatim>\<open>NaN\<close>: a finite value or one of the two
  infinities. Cells of other kinds (dates, truth values) are not modelled.
\<close>

datatype number = Fin real | PosInf | NegInf

datatype cell = NA | Num number | Str ustring

text \<open>
  A frame is its column labels and its rows, each row holding one cell per column. The
  labels of the raw frame are strings.
\<close>

record dataframe =
  columns :: "ustring list"
  rows :: "cell list list"

text \<open>
  The three identifier columns (form, indicator name, unit) and the name the function
  gives to the value column of the long table, as their code points.
\<close>

definition col_form :: ustring where
  "col_form = [0x8868, 0x5355]"

definition col_indicator :: ustring where
  "col_indicator = [0x6307, 0x6807, 0x540D, 0x79F0]"

definition col_unit :: ustring where
  "col_unit = [0x5355, 0x4F4D]"

definition col_value :: ustring where
  "col_value = [0x6570, 0x503C]"

definition REQUIRED_COLS :: "ustring list" where
  "REQUIRED_COLS = [col_form, col_indicator, col_unit]"

definition id_vars :: "ustring list" where
  "id_vars = REQUIRED_COLS"

text \<open>
  The frames the spreadsheet reader delivers are rectangular and carry pairwise distinct
  labels (the reader renames a repeated header).
\<close>

definition well_formed :: "dataframe \<Rightarrow> bool" where
  "well_formed df \<longleftrightarrow>
     distinct (columns df) \<and>
     list_all (\<lambda>r. length r = length (columns df)) (rows df)"

text \<open>
  What the function takes from its libraries without the source saying what it is, is a
  parameter of the model:
  \<^item> \<open>decimal\<close> is the table of the decimal digits of Unicode, which both \<^verbatim>\<open>\D\<close> of
    \<^verbatim>\<open>re\<close> and \<^verbatim>\<open>int\<close> consult: the value of a code point that is a decimal digit, of any
    script, and \<open>None\<close> for every other code point;
  \<^item> \<open>parse_float\<close> is what \<^verbatim>\<open>pd.to_numeric\<close> makes of a string (\<open>None\<close> when the
    string is no number, or reads as \<^verbatim>\<open>NaN\<close>);
  \<^item> \<open>round2_str\<close> is the text of a number rounded to two decimals
    (\<^verbatim>\<open>.round(2).astype(str)\<close>);
  \<^item> \<open>adds_to_str\<close> says of the unit column whether the library adds a column of
    its type to a column of strings at all. Older versions of \<^verbatim>\<open>pandas\<close> always do, and
    go through the column cell by cell; recent ones refuse a column of floats or of
    integers, which is what a unit column without any text is.
\<close>

record lib =
  decimal :: "int \<Rightarrow> nat option"
  parse_float :: "ustring \<Rightarrow> number option"
  round2_str :: "number \<Rightarrow> ustring"
  adds_to_str :: "cell list \<Rightarrow> bool"

text \<open>
  After \<^verbatim>\<open>rename\<close> a label is either the string it was or the integer year read from it.
\<close>

datatype colname = Name ustring | Year int

text \<open>
  A row of the long table: the index \<^verbatim>\<open>melt\<close> numbers it with, the three identifier
  cells, the year and the value. The finished table has the display label as well.
\<close>

record long_row =
  idx :: nat
  category :: cell
  indicator :: cell
  unit :: cell
  year :: int
  val :: cell

record normalized = long_row +
  label :: cell

text \<open>
  What the function shows besides its result: the two fatal messages end the run
  (\<^verbatim>\<open>st.error\<close> followed by \<^verbatim>\<open>st.stop\<close>), a \<^verbatim>\<open>TypeError\<close> is what Python raises when a
  string operation meets a value that is no string, a \<^verbatim>\<open>ValueError\<close> is what \<^verbatim>\<open>melt\<close>
  raises when it cannot name its value column, and the warnings are the calls of
  \<^verbatim>\<open>st.warning\<close> in their order.
\<close>

datatype error = EmptyTableError | SchemaError "ustring list" | TypeError | ValueError

record failure =
  f_indicator :: cell
  f_year :: int
  f_raw :: cell

datatype warning =
    DuplicateIndicators "ustring list"
  | InvalidValues "failure list" "nat option"

section \<open>The steps of \<^verbatim>\<open>process_dataframe\<close>\<close>

subsection \<open>Reading a frame\<close>

definition empty :: "dataframe \<Rightarrow> bool" where
  "empty df \<longleftrightarrow> rows df = [] \<or> columns df = []"

definition lookup :: "'a list \<Rightarrow> cell list \<Rightarrow> 'a \<Rightarrow> cell" where
  "lookup cols r c = (case map_of (zip cols r) c of Some v \<Rightarrow> v | None \<Rightarrow> NA)"

definition cell_at :: "cell list \<Rightarrow> nat \<Rightarrow> cell" where
  "cell_at r p = (if p < length r then r ! p else NA)"

definition column :: "dataframe \<Rightarrow> ustring \<Rightarrow> cell list" where
  "column df c = map (\<lambda>r. lookup (columns df) r c) (rows df)"

subsection \<open>Duplicate indicator names\<close>

text \<open>
  \<^verbatim>\<open>Series.duplicated()\<close> marks every element that has an equal one before it;
  \<^verbatim>\<open>s[mask]\<close> keeps the marked elements and \<^verbatim>\<open>unique()\<close> the first occurrence of each.
\<close>

fun duplicated_from :: "'a list \<Rightarrow> 'a list \<Rightarrow> bool list" where
  "duplicated_from seen [] = []"
| "duplicated_from seen (x # xs) = (x \<in> set seen) # duplicated_from (x # seen) xs"

definition duplicated :: "'a list \<Rightarrow> bool list" where
  "duplicated xs = duplicated_from [] xs"

definition select :: "'a list \<Rightarrow> bool list \<Rightarrow> 'a list" where
  "select xs flags = map fst (filter snd (zip xs flags))"

definition unique :: "'a list \<Rightarrow> 'a list" where
  "unique xs = rev (remdups (rev xs))"

text \<open>
  \<^verbatim>\<open>', '.join(duplicates)\<close> raises \<^verbatim>\<open>TypeError\<close> unless every item is a string. The
  warning is kept as the list of the names joined.
\<close>

fun str_items :: "cell list \<Rightarrow> ustring list option" where
  "str_items [] = Some []"
| "str_items (Str s # cs) = map_option ((#) s) (str_items cs)"
| "str_items (_ # cs) = None"

definition check_duplicates :: "dataframe \<Rightarrow> error + warning list" where
  "check_duplicates df =
     (let names = column df col_indicator;
          duplicates = unique (select names (duplicated names))
      in if length duplicates > 0
         then (case str_items duplicates of
                 None \<Rightarrow> Inl TypeError
               | Some ns \<Rightarrow> Inr [DuplicateIndicators ns])
         else Inr [])"

subsection \<open>Year columns\<close>

text \<open>
  \<^verbatim>\<open>re.sub(r'\D', '', str(col))\<close> keeps the decimal digits of a label, those of every
  script, and \<^verbatim>\<open>int\<close> reads them in base ten, each digit by its value. The dictionary
  from the labels to their years is the list of its items in the order of insertion.
\<close>

definition is_digit :: "lib \<Rightarrow> int \<Rightarrow> bool" where
  "is_digit L c \<longleftrightarrow> decimal L c \<noteq> None"

definition digits_of :: "lib \<Rightarrow> ustring \<Rightarrow> ustring" where
  "digits_of L s = filter (is_digit L) s"

definition int_of_digits :: "lib \<Rightarrow> ustring \<Rightarrow> int" where
  "int_of_digits L s =
     foldl (\<lambda>a c. 10 * a + int (case decimal L c of Some d \<Rightarrow> d | None \<Rightarrow> 0)) 0 s"

definition value_vars :: "dataframe \<Rightarrow> ustring list" where
  "value_vars df = filter (\<lambda>col. col \<notin> set id_vars) (columns df)"

definition cleaned_colnames_map :: "lib \<Rightarrow> dataframe \<Rightarrow> (ustring \<times> int) list" where
  "cleaned_colnames_map L df =
     map (\<lambda>col. (col, int_of_digits L (digits_of L col)))
       (filter (\<lambda>col. digits_of L col \<noteq> []) (value_vars df))"

definition rename :: "(ustring \<times> int) list \<Rightarrow> ustring list \<Rightarrow> colname list" where
  "rename m cols = map (\<lambda>c. case map_of m c of Some y \<Rightarrow> Year y | None \<Rightarrow> Name c) cols"

subsection \<open>Wide to long\<close>

text \<open>
  \<^verbatim>\<open>melt\<close> refuses a frame that has a column labelled as it is to name the value
  column (\<^verbatim>\<open>ValueError\<close>). Otherwise it looks up the positions of the labels asked for
  (\<^verbatim>\<open>get_indexer_for\<close>: for each label in turn, every position that carries it), keeps
  each position once in the order found, takes the identifier columns out and lays the
  remaining columns one under the other, numbering the rows from zero. Two columns
  renamed to the same year are thus both kept, next to each other. The year of a value
  column is its label, and the identifier cells of a long row are those of the raw row
  it comes from.
\<close>

definition positions :: "'a \<Rightarrow> 'a list \<Rightarrow> nat list" where
  "positions x xs = filter (\<lambda>i. xs ! i = x) [0..<length xs]"

definition value_columns :: "colname list \<Rightarrow> int list \<Rightarrow> (nat \<times> int) list" where
  "value_columns cols value_vars_cleaned =
     unique (concat (map (\<lambda>y. map (\<lambda>p. (p, y)) (positions (Year y) cols)) value_vars_cleaned))"

definition long_of :: "colname list \<Rightarrow> nat \<times> (nat \<times> int) \<times> cell list \<Rightarrow> long_row" where
  "long_of cols = (\<lambda>(n, (p, y), r).
     \<lparr>idx = n,
      category = lookup cols r (Name col_form),
      indicator = lookup cols r (Name col_indicator),
      unit = lookup cols r (Name col_unit),
      year = y,
      val = cell_at r p\<rparr>)"

definition unpivot :: "colname list \<Rightarrow> cell list list \<Rightarrow> int list \<Rightarrow> long_row list" where
  "unpivot cols rws value_vars_cleaned =
     map (long_of cols) (enumerate 0 (List.product (value_columns cols value_vars_cleaned) rws))"

definition melt :: "colname list \<Rightarrow> cell list list \<Rightarrow> int list \<Rightarrow> error + long_row list" where
  "melt cols rws value_vars_cleaned =
     (if Name col_value \<in> set cols then Inl ValueError
      else Inr (unpivot cols rws value_vars_cleaned))"

subsection \<open>Numeric coercion and the report of what failed\<close>

text \<open>
  \<^verbatim>\<open>pd.to_numeric(..., errors='coerce')\<close> leaves a number as it is and turns a text into the
  number it reads as, or into \<^verbatim>\<open>NaN\<close>. A row has failed when its raw value is present
  and its coerced value is not. The warning lists the first five failed rows
  (\<^verbatim>\<open>failed_rows.head(5)\<close>) and, when there are more, says how many more; it is kept as
  the list of its entries and that number.
\<close>

definition to_numeric :: "lib \<Rightarrow> cell \<Rightarrow> cell" where
  "to_numeric L c = (case c of
       NA \<Rightarrow> NA
     | Num x \<Rightarrow> Num x
     | Str s \<Rightarrow> (case parse_float L s of None \<Rightarrow> NA | Some x \<Rightarrow> Num x))"

definition notna :: "cell \<Rightarrow> bool" where
  "notna c \<longleftrightarrow> c \<noteq> NA"

definition isna :: "cell \<Rightarrow> bool" where
  "isna c \<longleftrightarrow> c = NA"

definition failed_mask :: "lib \<Rightarrow> long_row \<Rightarrow> bool" where
  "failed_mask L r \<longleftrightarrow> notna (val r) \<and> isna (to_numeric L (val r))"

definition failure_of :: "long_row \<Rightarrow> failure" where
  "failure_of r = \<lparr>f_indicator = indicator r, f_year = year r, f_raw = val r\<rparr>"

definition coercion_warning :: "lib \<Rightarrow> long_row list \<Rightarrow> warning list" where
  "coercion_warning L df_long =
     (let failed_rows = filter (failed_mask L) df_long
      in if failed_rows \<noteq> []
         then [InvalidValues (map failure_of (take 5 failed_rows))
                 (if length failed_rows > 5 then Some (length failed_rows - 5) else None)]
         else [])"

definition coerce :: "lib \<Rightarrow> long_row \<Rightarrow> long_row" where
  "coerce L r = r\<lparr>val := to_numeric L (val r)\<rparr>"

definition dropna :: "long_row list \<Rightarrow> long_row list" where
  "dropna rs = filter (\<lambda>r. notna (val r)) rs"

subsection \<open>The display label\<close>

text \<open>
  The label is the rounded number as text, a space and the unit. When the library adds
  the unit column at all (\<open>adds_to_str\<close>), it does so row by row: a missing unit gives a
  missing label, and a unit that is a number raises \<^verbatim>\<open>TypeError\<close>. The text of a missing
  number is \<^verbatim>\<open>nan\<close>.
\<close>

definition with_label :: "long_row \<Rightarrow> cell \<Rightarrow> normalized" where
  "with_label r l =
     \<lparr>idx = idx r, category = category r, indicator = indicator r, unit = unit r,
      year = year r, val = val r, label = l\<rparr>"

definition value_text :: "lib \<Rightarrow> cell \<Rightarrow> ustring" where
  "value_text L c = (case c of Num x \<Rightarrow> round2_str L x | _ \<Rightarrow> ascii ''nan'')"

definition add_label :: "lib \<Rightarrow> long_row \<Rightarrow> normalized option" where
  "add_label L r = (case unit r of
       Str u \<Rightarrow> Some (with_label r (Str (value_text L (val r) @ ascii '' '' @ u)))
     | NA \<Rightarrow> Some (with_label r NA)
     | Num _ \<Rightarrow> None)"

fun add_labels :: "lib \<Rightarrow> long_row list \<Rightarrow> normalized list option" where
  "add_labels L [] = Some []"
| "add_labels L (r # rs) =
     (case add_label L r of
        None \<Rightarrow> None
      | Some n \<Rightarrow> map_option ((#) n) (add_labels L rs))"

definition label_column :: "lib \<Rightarrow> cell list \<Rightarrow> long_row list \<Rightarrow> normalized list option" where
  "label_column L units rs = (if adds_to_str L units then add_labels L rs else None)"

subsection \<open>The whole function\<close>

text \<open>The long table of a frame, when \<^verbatim>\<open>melt\<close> makes one.\<close>

definition long_table :: "lib \<Rightarrow> dataframe \<Rightarrow> long_row list" where
  "long_table L df =
     (let m = cleaned_colnames_map L df
      in unpivot (rename m (columns df)) (rows df) (map snd m))"

definition process_dataframe :: "lib \<Rightarrow> dataframe \<Rightarrow> error + normalized list \<times> warning list" where
  "process_dataframe L df_raw =
     (if empty df_raw then Inl EmptyTableError
      else
        let missing_cols = filter (\<lambda>col. col \<notin> set (columns df_raw)) REQUIRED_COLS
        in if missing_cols \<noteq> [] then Inl (SchemaError missing_cols)
           else (case check_duplicates df_raw of
                   Inl e \<Rightarrow> Inl e
                 | Inr w1 \<Rightarrow>
                     let cleaned = cleaned_colnames_map L df_raw;
                         cols = rename cleaned (columns df_raw)
                     in (case melt cols (rows df_raw) (map snd cleaned) of
                           Inl e \<Rightarrow> Inl e
                         | Inr df_long \<Rightarrow>
                             let w2 = coercion_warning L df_long;
                                 kept = dropna (map (coerce L) df_long)
                             in (case label_column L (column df_raw col_unit) kept of
                                   None \<Rightarrow> Inl TypeError
                                 | Some out \<Rightarrow> Inr (out, w1 @ w2)))))"

section \<open>The function on a store of objects\<close>

text \<open>
  The function works on objects that it may change in place: \<^verbatim>\<open>df_raw.copy()\<close>
  makes a new frame, \<^verbatim>\<open>rename(..., inplace=True)\<close> changes the labels of that frame,
  \<^verbatim>\<open>melt\<close> makes the long table, and the assignment of the coerced column,
  \<^verbatim>\<open>dropna(..., inplace=True)\<close> and the assignment of the label column change the long
  table. The store is the list of the objects there are, an address being a position in
  it; a new object is put at the end.
\<close>

datatype obj =
    Frame dataframe
  | Renamed "colname list" "cell list list"
  | Long "long_row list"
  | Table "normalized list"

type_synonym store = "obj list"

definition fetch :: "store \<Rightarrow> nat \<Rightarrow> obj option" where
  "fetch h a = (if a < length h then Some (h ! a) else None)"

definition alloc :: "store \<Rightarrow> obj \<Rightarrow> store \<times> nat" where
  "alloc h v = (h @ [v], length h)"

text \<open>
  The call on the address of a frame gives the outcome, the address of the table when
  there is one, and the store it leaves. A call on an address that holds no frame is no
  call of the function (\<open>None\<close>).
\<close>

definition process_dataframe_store ::
    "lib \<Rightarrow> store \<Rightarrow> nat \<Rightarrow> ((error + nat \<times> warning list) \<times> store) option" where
  "process_dataframe_store L h df_raw =
     (case fetch h df_raw of
        Some (Frame raw) \<Rightarrow>
          Some
           (if empty raw then (Inl EmptyTableError, h)
            else
              let (h1, df) = alloc h (Frame raw);
                  missing_cols = filter (\<lambda>col. col \<notin> set (columns raw)) REQUIRED_COLS
              in if missing_cols \<noteq> [] then (Inl (SchemaError missing_cols), h1)
                 else (case check_duplicates raw of
                         Inl e \<Rightarrow> (Inl e, h1)
                       | Inr w1 \<Rightarrow>
                           let cleaned = cleaned_colnames_map L raw;
                               cols = rename cleaned (columns raw);
                               h2 = h1[df := Renamed cols (rows raw)]
                           in (case melt cols (rows raw) (map snd cleaned) of
                                 Inl e \<Rightarrow> (Inl e, h2)
                               | Inr long \<Rightarrow>
                                   let (h3, df_long) = alloc h2 (Long long);
                                       h4 = h3[df_long := Long (map (coerce L) long)];
                                       w2 = coercion_warning L long;
                                       kept = dropna (map (coerce L) long);
                                       h5 = h4[df_long := Long kept]
                                   in (case label_column L (column raw col_unit) kept of
                                         None \<Rightarrow> (Inl TypeError, h5)
                                       | Some out \<Rightarrow>
                                           (Inr (df_long, w1 @ w2),
                                            h5[df_long := Table out])))))
      | _ \<Rightarrow> None)"

section \<open>Notions used in the statements\<close>

text \<open>
  The year a label is renamed to, the positions of the raw frame that hold a year
  column (a label outside the identifier columns with at least one digit), and the value
  columns of the long table in the order \<^verbatim>\<open>melt\<close> lays them out, each with its year.
\<close>

definition year_label :: "lib \<Rightarrow> ustring \<Rightarrow> int" where
  "year_label L col = int_of_digits L (digits_of L col)"

definition year_column :: "lib \<Rightarrow> dataframe \<Rightarrow> nat \<Rightarrow> bool" where
  "year_column L df p \<longleftrightarrow>
     p < length (columns df) \<and> columns df ! p \<notin> set id_vars \<and>
     digits_of L (columns df ! p) \<noteq> []"

definition year_columns :: "lib \<Rightarrow> dataframe \<Rightarrow> (nat \<times> int) list" where
  "year_columns L df =
     value_columns (rename (cleaned_colnames_map L df) (columns df))
       (map snd (cleaned_colnames_map L df))"

text \<open>
  The long row that stands for the cell of raw row \<open>i\<close> in the \<open>k\<close>-th value column.
\<close>

definition cell_row :: "lib \<Rightarrow> dataframe \<Rightarrow> nat \<Rightarrow> nat \<Rightarrow> long_row" where
  "cell_row L df k i =
     \<lparr>idx = k * length (rows df) + i,
      category = lookup (columns df) (rows df ! i) col_form,
      indicator = lookup (columns df) (rows df ! i) col_indicator,
      unit = lookup (columns df) (rows df ! i) col_unit,
      year = snd (year_columns L df ! k),
      val = rows df ! i ! fst (year_columns L df ! k)\<rparr>"

text \<open>
  Whether the label \<^verbatim>\<open>melt\<close> is to give to the value column is a label of the renamed
  frame already.
\<close>

definition value_name_taken :: "lib \<Rightarrow> dataframe \<Rightarrow> bool" where
  "value_name_taken L df \<longleftrightarrow>
     Name col_value \<in> set (rename (cleaned_colnames_map L df) (columns df))"

text \<open>The rows of the long table whose value is present and does not coerce.\<close>

definition failed_rows :: "lib \<Rightarrow> dataframe \<Rightarrow> long_row list" where
  "failed_rows L df = filter (failed_mask L) (long_table L df)"

section \<open>Concrete inputs\<close>

text \<open>
  A library to evaluate the model with: it knows the ASCII digits and the full-width
  ones, reads unsigned decimal literals in ASCII as numbers and nothing else, renders
  every number by its kind, and adds a unit column that holds a text.
\<close>

definition sample_lib :: lib where
  "sample_lib =
     \<lparr>decimal = (\<lambda>c. if 48 \<le> c \<and> c \<le> 57 then Some (nat (c - 48))
                      else if 0xFF10 \<le> c \<and> c \<le> 0xFF19 then Some (nat (c - 0xFF10))
                      else None),
      parse_float = (\<lambda>s. if s \<noteq> [] \<and> list_all (\<lambda>c. 48 \<le> c \<and> c \<le> 57) s
                          then Some (Fin (of_int (foldl (\<lambda>a c. 10 * a + (c - 48)) 0 s)))
                          else None),
      round2_str = (\<lambda>x. case x of Fin _ \<Rightarrow> ascii ''num'' | PosInf \<Rightarrow> ascii ''inf''
                                  | NegInf \<Rightarrow> ascii ''-inf''),
      adds_to_str = list_ex (\<lambda>c. case c of Str _ \<Rightarrow> True | _ \<Rightarrow> False)\<rparr>"

definition nian :: ustring where
  "nian = [0x5E74]"

text \<open>
  One indicator, a year column \<^verbatim>\<open>2019\<close> holding a number and a year column
  \<^verbatim>\<open>2021\<close> followed by the character for "year" holding \<^verbatim>\<open>N/A\<close>.
\<close>

definition scenario :: dataframe where
  "scenario =
     \<lparr>columns = [col_form, col_indicator, col_unit, ascii ''2019'', ascii ''2021'' @ nian],
      rows = [[Str (ascii ''A''), Str (ascii ''M1''), Str (ascii ''%''), Num (Fin 6), Str (ascii ''N/A'')]]\<rparr>"

definition scenario_out :: "normalized list" where
  "scenario_out =
     [\<lparr>idx = 0, category = Str (ascii ''A''), indicator = Str (ascii ''M1''), unit = Str (ascii ''%''),
       year = 2019, val = Num (Fin 6), label = Str (ascii ''num %'')\<rparr>]"

definition scenario_warnings :: "warning list" where
  "scenario_warnings =
     [InvalidValues [\<lparr>f_indicator = Str (ascii ''M1''), f_year = 2021, f_raw = Str (ascii ''N/A'')\<rparr>] None]"

text \<open>The scenario with the number replaced by a missing cell.\<close>

definition with_blank :: dataframe where
  "with_blank =
     \<lparr>columns = [col_form, col_indicator, col_unit, ascii ''2019'', ascii ''2021'' @ nian],
      rows = [[Str (ascii ''A''), Str (ascii ''M1''), Str (ascii ''%''), NA, Str (ascii ''N/A'')]]\<rparr>"

text \<open>A row without a category whose only value is an infinity.\<close>

definition blank_category :: dataframe where
  "blank_category =
     \<lparr>columns = [col_form, col_indicator, col_unit, ascii ''2019''],
      rows = [[NA, Str (ascii ''M1''), Str (ascii ''%''), Num PosInf]]\<rparr>"

text \<open>One indicator with six year columns, no cell of which is a number.\<close>

definition six_bad :: dataframe where
  "six_bad =
     \<lparr>columns = [col_form, col_indicator, col_unit,
                 ascii ''2011'', ascii ''2012'', ascii ''2013'', ascii ''2014'', ascii ''2015'', ascii ''2016''],
      rows = [[Str (ascii ''A''), Str (ascii ''M1''), Str (ascii ''%''),
               Str (ascii ''x''), Str (ascii ''x''), Str (ascii ''x''), Str (ascii ''x''), Str (ascii ''x''), Str (ascii ''x'')]]\<rparr>"

text \<open>
  Two rows of the same indicator over four years: the second row has a number for 2019,
  all other cells are texts that are no numbers.
\<close>

definition twice_m1 :: dataframe where
  "twice_m1 =
     \<lparr>columns = [col_form, col_indicator, col_unit, ascii ''2019'', ascii ''2020'', ascii ''2021'', ascii ''2022''],
      rows = [[Str (ascii ''A''), Str (ascii ''M1''), Str (ascii ''%''), Str (ascii ''x''), Str (ascii ''x''), Str (ascii ''x''), Str (ascii ''x'')],
              [Str (ascii ''A''), Str (ascii ''M1''), Str (ascii ''%''), Num (Fin 1), Str (ascii ''x''), Str (ascii ''x''), Str (ascii ''x'')]]\<rparr>"

text \<open>
  Two labels, \<^verbatim>\<open>2021\<close> and \<^verbatim>\<open>2021\<close> followed by the character for "year", that are
  renamed to the same year, with a column for 2020 between them.
\<close>

definition same_year :: dataframe where
  "same_year =
     \<lparr>columns = [col_form, col_indicator, col_unit, ascii ''2021'', ascii ''2020'', ascii ''2021'' @ nian],
      rows = [[Str (ascii ''A''), Str (ascii ''M1''), Str (ascii ''%''), Num (Fin 8), Num (Fin 2), Num (Fin 9)]]\<rparr>"

definition same_year_out :: "normalized list" where
  "same_year_out =
     [\<lparr>idx = 0, category = Str (ascii ''A''), indicator = Str (ascii ''M1''), unit = Str (ascii ''%''),
       year = 2021, val = Num (Fin 8), label = Str (ascii ''num %'')\<rparr>,
      \<lparr>idx = 1, category = Str (ascii ''A''), indicator = Str (ascii ''M1''), unit = Str (ascii ''%''),
       year = 2021, val = Num (Fin 9), label = Str (ascii ''num %'')\<rparr>,
      \<lparr>idx = 2, category = Str (ascii ''A''), indicator = Str (ascii ''M1''), unit = Str (ascii ''%''),
       year = 2020, val = Num (Fin 2), label = Str (ascii ''num %'')\<rparr>]"

text \<open>The indicator \<^verbatim>\<open>M1\<close> on two rows, with different numbers for 2019.\<close>

definition duplicate_m1 :: dataframe where
  "duplicate_m1 =
     \<lparr>columns = [col_form, col_indicator, col_unit, ascii ''2019''],
      rows = [[Str (ascii ''A''), Str (ascii ''M1''), Str (ascii ''%''), Num (Fin 6)],
              [Str (ascii ''A''), Str (ascii ''M1''), Str (ascii ''%''), Num (Fin 7)]]\<rparr>"

definition duplicate_m1_out :: "normalized list" where
  "duplicate_m1_out =
     [\<lparr>idx = 0, category = Str (ascii ''A''), indicator = Str (ascii ''M1''), unit = Str (ascii ''%''),
       year = 2019, val = Num (Fin 6), label = Str (ascii ''num %'')\<rparr>,
      \<lparr>idx = 1, category = Str (ascii ''A''), indicator = Str (ascii ''M1''), unit = Str (ascii ''%''),
       year = 2019, val = Num (Fin 7), label = Str (ascii ''num %'')\<rparr>]"

text \<open>
  Two rows whose indicator cell is missing, and two rows whose indicator cell is the
  number 1001.
\<close>

definition blank_names :: dataframe where
  "blank_names =
     \<lparr>columns = [col_form, col_indicator, col_unit, ascii ''2019''],
      rows = [[Str (ascii ''A''), NA, Str (ascii ''%''), Num (Fin 6)],
              [Str (ascii ''A''), NA, Str (ascii ''%''), Num (Fin 7)]]\<rparr>"

definition numeric_names :: dataframe where
  "numeric_names =
     \<lparr>columns = [col_form, col_indicator, col_unit, ascii ''2019''],
      rows = [[Str (ascii ''A''), Num (Fin 1001), Str (ascii ''%''), Num (Fin 6)],
              [Str (ascii ''A''), Num (Fin 1001), Str (ascii ''%''), Num (Fin 7)]]\<rparr>"

text \<open>The frame without its \<open>j\<close>-th column.\<close>

definition drop_nth :: "nat \<Rightarrow> 'a list \<Rightarrow> 'a list" where
  "drop_nth j xs = take j xs @ drop (Suc j) xs"

definition drop_column :: "nat \<Rightarrow> dataframe \<Rightarrow> dataframe" where
  "drop_column j df = \<lparr>columns = drop_nth j (columns df), rows = map (drop_nth j) (rows df)\<rparr>"

text \<open>
  The scenario with a column of notes, whose label (the characters for "notes on the
  year") has no digit, between the two year columns.
\<close>

definition nianfen_shuoming :: ustring where
  "nianfen_shuoming = [0x5E74, 0x4EFD, 0x8BF4, 0x660E]"

definition with_notes :: dataframe where
  "with_notes =
     \<lparr>columns = [col_form, col_indicator, col_unit, ascii ''2019'', nianfen_shuoming, ascii ''2021'' @ nian],
      rows = [[Str (ascii ''A''), Str (ascii ''M1''), Str (ascii ''%''), Num (Fin 6), Str (ascii ''see annex''), Str (ascii ''N/A'')]]\<rparr>"

text \<open>Where a position is found once position \<open>j\<close> is taken out.\<close>

definition shift :: "nat \<Rightarrow> nat \<Rightarrow> nat" where
  "shift j p = (if p < j then p else p - 1)"

text \<open>
  The indicator \<^verbatim>\<open>M1\<close> on two rows, and two rows whose indicator cell is missing.
\<close>

definition mixed_duplicates :: dataframe where
  "mixed_duplicates =
     \<lparr>columns = [col_form, col_indicator, col_unit, ascii ''2019''],
      rows = [[Str (ascii ''A''), Str (ascii ''M1''), Str (ascii ''%''), Num (Fin 6)],
              [Str (ascii ''A''), Str (ascii ''M1''), Str (ascii ''%''), Num (Fin 7)],
              [Str (ascii ''A''), NA, Str (ascii ''%''), Num (Fin 8)],
              [Str (ascii ''A''), NA, Str (ascii ''%''), Num (Fin 9)]]\<rparr>"

text \<open>
  The scenario with a column labelled by the characters for "value" between the two year
  columns.
\<close>

definition with_value_column :: dataframe where
  "with_value_column =
     \<lparr>columns = [col_form, col_indicator, col_unit, ascii ''2019'', col_value,
                 ascii ''2021'' @ nian],
      rows = [[Str (ascii ''A''), Str (ascii ''M1''), Str (ascii ''%''), Num (Fin 6),
               Str (ascii ''x''), Str (ascii ''N/A'')]]\<rparr>"

section \<open>Properties of the steps\<close>

subsection \<open>Duplicates\<close>

lemma set_unique: "set (unique xs) = set xs"
  by (simp add: unique_def)

lemma distinct_unique: "distinct (unique xs)"
  by (simp add: unique_def)

lemma unique_distinct: "distinct xs \<Longrightarrow> unique xs = xs"
  by (simp add: unique_def distinct_remdups_id)

lemma select_Cons:
  "select (x # xs) (b # bs) = (if b then [x] else []) @ select xs bs"
  by (simp add: select_def)

lemma set_select_duplicated_from:
  "set (select xs (duplicated_from seen xs)) =
     {x \<in> set xs. x \<in> set seen \<or> 2 \<le> count_list xs x}"
proof (induction xs arbitrary: seen)
  case Nil
  then show ?case by (simp add: select_def)
next
  case (Cons a xs)
  show ?case
    unfolding duplicated_from.simps select_Cons set_append Cons.IH
    by (auto simp: count_list_0_iff Suc_le_eq)
qed

lemma set_duplicates:
  "set (unique (select xs (duplicated xs))) = {x. 2 \<le> count_list xs x}"
proof -
  have "2 \<le> count_list xs x \<Longrightarrow> x \<in> set xs" for x
    by (rule ccontr) (simp add: count_list_0_iff)
  then show ?thesis
    by (auto simp: set_unique duplicated_def set_select_duplicated_from)
qed

lemma str_items_Some:
  "str_items cs = Some ns \<Longrightarrow> cs = map Str ns"
  by (induction cs arbitrary: ns rule: str_items.induct) auto

lemma str_items_map_Str: "str_items (map Str ns) = Some ns"
  by (induction ns) auto

lemma count_list_distinct:
  "distinct xs \<Longrightarrow> x \<in> set xs \<Longrightarrow> count_list xs x = 1"
  by (induction xs) (auto simp: count_list_0_iff)

lemma count_list_map_Str: "count_list (map Str ns) (Str s) = count_list ns s"
  by (induction ns) auto

subsection \<open>The year columns\<close>

lemma map_of_cleaned:
  "map_of (cleaned_colnames_map L df) c =
     (if c \<in> set (columns df) \<and> c \<notin> set id_vars \<and> digits_of L c \<noteq> []
      then Some (year_label L c) else None)"
  unfolding cleaned_colnames_map_def value_vars_def year_label_def
  by (simp add: map_of_map_restrict restrict_map_def)

lemma rename_nth:
  assumes "p < length (columns df)"
  shows "rename (cleaned_colnames_map L df) (columns df) ! p =
           (if year_column L df p then Year (year_label L (columns df ! p)) else Name (columns df ! p))"
  using assms by (simp add: rename_def map_of_cleaned year_column_def)

lemma length_rename [simp]: "length (rename m cols) = length cols"
  by (simp add: rename_def)

lemma snd_cleaned:
  "y \<in> snd ` set (cleaned_colnames_map L df) \<longleftrightarrow>
     (\<exists>p. year_column L df p \<and> y = year_label L (columns df ! p))"
  unfolding cleaned_colnames_map_def value_vars_def year_column_def year_label_def
  by (auto simp: in_set_conv_nth image_iff)

lemma set_value_columns:
  "set (value_columns (rename (cleaned_colnames_map L df) (columns df)) (map snd (cleaned_colnames_map L df)))
     = {(p, y). year_column L df p \<and> y = year_label L (columns df ! p)}"
  (is "?L = ?R")
proof (rule set_eqI, clarify)
  fix p y
  have "(p, y) \<in> ?L \<longleftrightarrow>
          y \<in> set (map snd (cleaned_colnames_map L df)) \<and> p < length (columns df) \<and>
          rename (cleaned_colnames_map L df) (columns df) ! p = Year y"
    by (auto simp: value_columns_def set_unique positions_def)
  also have "\<dots> \<longleftrightarrow> year_column L df p \<and> y = year_label L (columns df ! p)"
  proof -
    have "year_column L df p \<Longrightarrow> p < length (columns df)"
      by (simp add: year_column_def)
    then show ?thesis
      by (auto simp: rename_nth snd_cleaned split: if_splits)
  qed
  finally show "(p, y) \<in> ?L \<longleftrightarrow> (p, y) \<in> ?R" by simp
qed

lemma distinct_value_columns: "distinct (value_columns cols ys)"
  by (simp add: value_columns_def distinct_unique)

lemma length_cleaned:
  "length (cleaned_colnames_map L df) = card {p. year_column L df p}"
proof -
  have "length (cleaned_colnames_map L df) =
          length (filter (\<lambda>c. c \<notin> set id_vars \<and> digits_of L c \<noteq> []) (columns df))"
    by (simp add: cleaned_colnames_map_def value_vars_def conj_commute)
  also have "\<dots> = card {p. p < length (columns df) \<and> columns df ! p \<notin> set id_vars \<and> digits_of L (columns df ! p) \<noteq> []}"
    by (simp add: length_filter_conv_card)
  finally show ?thesis by (simp add: year_column_def)
qed

lemma length_value_columns:
  "length (value_columns (rename (cleaned_colnames_map L df) (columns df)) (map snd (cleaned_colnames_map L df)))
     = length (cleaned_colnames_map L df)"
proof -
  let ?S = "{(p, y). year_column L df p \<and> y = year_label L (columns df ! p)}"
  have "?S = (\<lambda>p. (p, year_label L (columns df ! p))) ` {p. year_column L df p}"
    by auto
  moreover have "inj_on (\<lambda>p. (p, year_label L (columns df ! p))) {p. year_column L df p}"
    by (simp add: inj_on_def)
  ultimately have "card ?S = card {p. year_column L df p}"
    by (simp add: card_image)
  then show ?thesis
    using distinct_card [OF distinct_value_columns, of "rename (cleaned_colnames_map L df) (columns df)" "map snd (cleaned_colnames_map L df)"]
    by (simp add: set_value_columns length_cleaned)
qed

subsection \<open>The long table, cell by cell\<close>

lemma long_table_eq:
  "long_table L df =
     map (long_of (rename (cleaned_colnames_map L df) (columns df)))
       (enumerate 0 (List.product (year_columns L df) (rows df)))"
  by (simp add: long_table_def unpivot_def year_columns_def Let_def)

lemma length_long_table:
  "length (long_table L df) = length (cleaned_colnames_map L df) * length (rows df)"
  by (simp add: long_table_eq year_columns_def length_value_columns)

lemma long_table_nth:
  assumes "n < length (cleaned_colnames_map L df) * length (rows df)"
  shows "long_table L df ! n =
           long_of (rename (cleaned_colnames_map L df) (columns df))
             (n, year_columns L df ! (n div length (rows df)), rows df ! (n mod length (rows df)))"
proof -
  have "n < length (List.product (year_columns L df) (rows df))"
    using assms by (simp add: year_columns_def length_value_columns)
  then show ?thesis
    by (simp add: long_table_eq nth_enumerate_eq product_nth)
qed

lemma map_of_zip_map_inj:
  assumes "\<And>c'. f c' = f c \<Longrightarrow> c' = c"
  shows "map_of (zip (map f cols) r) (f c) = map_of (zip cols r) c"
proof (induction cols arbitrary: r)
  case Nil
  then show ?case by simp
next
  case (Cons a cols)
  then show ?case using assms by (cases r) auto
qed

lemma lookup_rename:
  assumes "c \<in> set id_vars"
  shows "lookup (rename (cleaned_colnames_map L df) (columns df)) r (Name c) = lookup (columns df) r c"
proof -
  let ?f = "\<lambda>c. case map_of (cleaned_colnames_map L df) c of Some y \<Rightarrow> Year y | None \<Rightarrow> Name c"
  have c: "?f c = Name c"
    using assms by (simp add: map_of_cleaned)
  have "?f c' = ?f c \<Longrightarrow> c' = c" for c'
    unfolding c by (simp split: option.splits)
  from map_of_zip_map_inj [of ?f c "columns df" r, OF this]
  show ?thesis
    unfolding lookup_def rename_def c by simp
qed

subsection \<open>What a run that returns has done\<close>

lemma truncate_with_label [simp]: "long_row.truncate (with_label r l) = r"
  by (simp add: with_label_def long_row.truncate_def)

lemma add_label_Some:
  "add_label L r = Some n \<Longrightarrow> long_row.truncate n = r"
  by (auto simp: add_label_def split: cell.splits)

lemma add_labels_Some:
  "add_labels L rs = Some out \<Longrightarrow> map long_row.truncate out = rs"
  by (induction rs arbitrary: out) (auto split: option.splits dest: add_label_Some)

lemma add_labels_None_iff:
  "add_labels L rs = None \<longleftrightarrow> (\<exists>r \<in> set rs. \<exists>x. unit r = Num x)"
  by (induction rs) (auto simp: add_label_def split: option.splits cell.splits)

lemma col_value_no_id: "col_value \<notin> set id_vars"
  by (simp add: id_vars_def REQUIRED_COLS_def col_value_def col_form_def col_indicator_def
                col_unit_def)

lemma value_name_taken_iff:
  "value_name_taken L df \<longleftrightarrow> col_value \<in> set (columns df) \<and> digits_of L col_value = []"
proof -
  have "Name col_value \<in> set (rename (cleaned_colnames_map L df) (columns df)) \<longleftrightarrow>
        (\<exists>c \<in> set (columns df).
           (case map_of (cleaned_colnames_map L df) c of Some y \<Rightarrow> Year y | None \<Rightarrow> Name c) =
           Name col_value)"
    by (auto simp: rename_def intro: rev_image_eqI)
  also have "\<dots> \<longleftrightarrow> col_value \<in> set (columns df) \<and> digits_of L col_value = []"
    using col_value_no_id by (auto simp: map_of_cleaned split: if_splits)
  finally show ?thesis by (simp add: value_name_taken_def)
qed

lemma melt_long_table:
  "melt (rename (cleaned_colnames_map L df) (columns df)) (rows df)
        (map snd (cleaned_colnames_map L df)) =
     (if value_name_taken L df then Inl ValueError else Inr (long_table L df))"
  by (simp add: melt_def value_name_taken_def long_table_def Let_def)

lemma process_dataframe_unfold:
  "process_dataframe L df =
     (if empty df then Inl EmptyTableError
      else if filter (\<lambda>col. col \<notin> set (columns df)) REQUIRED_COLS \<noteq> []
      then Inl (SchemaError (filter (\<lambda>col. col \<notin> set (columns df)) REQUIRED_COLS))
      else case check_duplicates df of
             Inl e \<Rightarrow> Inl e
           | Inr w1 \<Rightarrow>
               if value_name_taken L df then Inl ValueError
               else if \<not> adds_to_str L (column df col_unit) then Inl TypeError
               else case add_labels L (dropna (map (coerce L) (long_table L df))) of
                      None \<Rightarrow> Inl TypeError
                    | Some out \<Rightarrow> Inr (out, w1 @ coercion_warning L (long_table L df)))"
  by (simp add: process_dataframe_def Let_def melt_long_table label_column_def
           split: sum.splits)

lemma process_dataframe_Inr:
  assumes "process_dataframe L df = Inr (out, ws)"
  shows "\<not> empty df"
    and "set REQUIRED_COLS \<subseteq> set (columns df)"
    and "\<exists>w1. check_duplicates df = Inr w1 \<and> ws = w1 @ coercion_warning L (long_table L df)"
    and "map long_row.truncate out = dropna (map (coerce L) (long_table L df))"
    and "\<not> value_name_taken L df"
    and "adds_to_str L (column df col_unit)"
proof -
  note run = assms [unfolded process_dataframe_unfold]
  show 1: "\<not> empty df"
    using run by (auto split: if_splits)
  have 2: "filter (\<lambda>col. col \<notin> set (columns df)) REQUIRED_COLS = []"
    using run 1 by (auto split: if_splits)
  then show "set REQUIRED_COLS \<subseteq> set (columns df)"
    by (auto simp: filter_empty_conv)
  from run 1 2 show "\<exists>w1. check_duplicates df = Inr w1 \<and> ws = w1 @ coercion_warning L (long_table L df)"
    by (auto split: if_splits sum.splits option.splits)
  from run 1 2 show "map long_row.truncate out = dropna (map (coerce L) (long_table L df))"
    by (auto split: if_splits sum.splits option.splits dest: add_labels_Some)
  from run 1 2 show "\<not> value_name_taken L df"
    by (auto split: if_splits sum.splits)
  from run 1 2 show "adds_to_str L (column df col_unit)"
    by (auto split: if_splits sum.splits)
qed

subsection \<open>Rows of the long table and cells of the frame\<close>

lemma length_year_columns: "length (year_columns L df) = length (cleaned_colnames_map L df)"
  by (simp add: year_columns_def length_value_columns)

lemma year_columns_nth:
  assumes "k < length (year_columns L df)"
  shows "year_column L df (fst (year_columns L df ! k))"
    and "snd (year_columns L df ! k) = year_label L (columns df ! fst (year_columns L df ! k))"
proof -
  have "year_columns L df ! k \<in> set (year_columns L df)"
    using assms by simp
  then have "year_columns L df ! k \<in> {(p, y). year_column L df p \<and> y = year_label L (columns df ! p)}"
    by (simp add: year_columns_def set_value_columns)
  then show "year_column L df (fst (year_columns L df ! k))"
    and "snd (year_columns L df ! k) = year_label L (columns df ! fst (year_columns L df ! k))"
    by (auto simp: case_prod_beta)
qed

lemma year_column_ex:
  assumes "year_column L df p"
  shows "\<exists>k < length (year_columns L df). year_columns L df ! k = (p, year_label L (columns df ! p))"
proof -
  have "(p, year_label L (columns df ! p)) \<in> set (year_columns L df)"
    using assms by (simp add: year_columns_def set_value_columns)
  then show ?thesis
    by (auto simp: in_set_conv_nth)
qed

lemma id_vars_mem:
  "col_form \<in> set id_vars" "col_indicator \<in> set id_vars" "col_unit \<in> set id_vars"
  by (simp_all add: id_vars_def REQUIRED_COLS_def)

lemma long_table_cell:
  assumes wf: "well_formed df"
    and k: "k < length (year_columns L df)"
    and i: "i < length (rows df)"
  shows "long_table L df ! (k * length (rows df) + i) = cell_row L df k i"
proof -
  let ?N = "length (rows df)"
  have n: "k * ?N + i < length (cleaned_colnames_map L df) * ?N"
  proof -
    have "k * ?N + i < k * ?N + ?N" using i by simp
    also have "\<dots> = Suc k * ?N" by simp
    also have "\<dots> \<le> length (year_columns L df) * ?N"
      using k by (intro mult_le_mono1) simp
    finally show ?thesis by (simp add: length_year_columns)
  qed
  have d: "(k * ?N + i) div ?N = k" and m: "(k * ?N + i) mod ?N = i"
  proof -
    have "?N \<noteq> 0" using i by auto
    then show "(k * ?N + i) div ?N = k" using i by simp
    show "(k * ?N + i) mod ?N = i" using i by simp
  qed
  have "length (rows df ! i) = length (columns df)"
    using wf i by (simp add: well_formed_def list_all_length)
  moreover have "fst (year_columns L df ! k) < length (columns df)"
    using year_columns_nth(1) [OF k] by (simp add: year_column_def)
  ultimately have c: "cell_at (rows df ! i) (fst (year_columns L df ! k)) = rows df ! i ! fst (year_columns L df ! k)"
    by (simp add: cell_at_def)
  show ?thesis
    unfolding long_table_nth [OF n] d m
    by (simp add: long_of_def cell_row_def Let_def case_prod_beta lookup_rename id_vars_mem c)
qed

lemma long_table_cases:
  assumes wf: "well_formed df"
    and r: "r \<in> set (long_table L df)"
  obtains k i where "k < length (year_columns L df)" "i < length (rows df)" "r = cell_row L df k i"
proof -
  let ?N = "length (rows df)"
  from r obtain n where n: "n < length (long_table L df)" and rn: "r = long_table L df ! n"
    by (auto simp: in_set_conv_nth)
  from n have nn: "n < length (year_columns L df) * ?N"
    by (simp add: length_long_table length_year_columns)
  then have pos: "0 < ?N" by (cases "?N = 0") auto
  have i: "n mod ?N < ?N" using pos by simp
  have k: "n div ?N < length (year_columns L df)"
    using nn pos by (simp add: less_mult_imp_div_less)
  have "n = (n div ?N) * ?N + n mod ?N" by simp
  with long_table_cell [OF wf k i] rn have "r = cell_row L df (n div ?N) (n mod ?N)"
    by simp
  with k i that show thesis by blast
qed

lemma long_table_mem:
  assumes "well_formed df" "k < length (year_columns L df)" "i < length (rows df)"
  shows "cell_row L df k i \<in> set (long_table L df)"
proof -
  have "k * length (rows df) + i < length (long_table L df)"
  proof -
    have "k * length (rows df) + i < Suc k * length (rows df)" using assms(3) by simp
    also have "\<dots> \<le> length (year_columns L df) * length (rows df)"
      using assms(2) by (intro mult_le_mono1) simp
    finally show ?thesis by (simp add: length_long_table length_year_columns)
  qed
  then show ?thesis
    using long_table_cell [OF assms] by (metis nth_mem)
qed

subsection \<open>From the long table to the table returned\<close>

lemma truncate_fields [simp]:
  "idx (long_row.truncate n) = idx n"
  "category (long_row.truncate n) = category n"
  "indicator (long_row.truncate n) = indicator n"
  "unit (long_row.truncate n) = unit n"
  "year (long_row.truncate n) = year n"
  "val (long_row.truncate n) = val n"
  by (simp_all add: long_row.truncate_def)

lemma to_numeric_cases:
  "to_numeric L c = NA \<or> (\<exists>x. to_numeric L c = Num x)"
  by (auto simp: to_numeric_def split: cell.splits option.splits)

lemma out_origin:
  assumes "process_dataframe L df = Inr (out, ws)"
    and "n \<in> set out"
  shows "\<exists>r \<in> set (long_table L df). \<exists>x. to_numeric L (val r) = Num x \<and>
           long_row.truncate n = r\<lparr>val := Num x\<rparr>"
proof -
  from assms(2) have "long_row.truncate n \<in> set (map long_row.truncate out)"
    by simp
  then have "long_row.truncate n \<in> set (dropna (map (coerce L) (long_table L df)))"
    by (simp only: process_dataframe_Inr(4) [OF assms(1)])
  then have "long_row.truncate n \<in> coerce L ` set (long_table L df)"
    and nn: "notna (val (long_row.truncate n))"
    by (simp_all add: dropna_def)
  then obtain r where r: "r \<in> set (long_table L df)" "long_row.truncate n = coerce L r"
    by blast
  from nn r(2) have "to_numeric L (val r) \<noteq> NA"
    by (simp add: coerce_def notna_def)
  with to_numeric_cases [of L "val r"] obtain x where "to_numeric L (val r) = Num x"
    by blast
  with r show ?thesis by (auto simp: coerce_def)
qed

lemma cell_survives:
  assumes "process_dataframe L df = Inr (out, ws)"
    and "r \<in> set (long_table L df)"
    and "to_numeric L (val r) = Num x"
  shows "\<exists>n \<in> set out. long_row.truncate n = r\<lparr>val := Num x\<rparr>"
proof -
  have "coerce L r \<in> coerce L ` set (long_table L df)"
    using assms(2) by (rule imageI)
  moreover have "notna (val (coerce L r))"
    using assms(3) by (simp add: coerce_def notna_def)
  ultimately have "coerce L r \<in> set (dropna (map (coerce L) (long_table L df)))"
    by (simp add: dropna_def)
  then have "coerce L r \<in> set (map long_row.truncate out)"
    by (simp only: process_dataframe_Inr(4) [OF assms(1)])
  then obtain n where "n \<in> set out" "long_row.truncate n = coerce L r"
    by auto
  then show ?thesis
    using assms(3) by (auto simp: coerce_def)
qed

lemma length_filter_eq_iff:
  "length (filter P xs) = length xs \<longleftrightarrow> (\<forall>x \<in> set xs. P x)"
proof
  assume "length (filter P xs) = length xs"
  then show "\<forall>x \<in> set xs. P x"
    using length_filter_less [of _ xs P] by fastforce
next
  assume "\<forall>x \<in> set xs. P x"
  then show "length (filter P xs) = length xs" by simp
qed

lemma all_cells_iff:
  assumes wf: "well_formed df"
  shows "(\<forall>r \<in> set (long_table L df). Q (val r)) \<longleftrightarrow>
         (\<forall>i < length (rows df). \<forall>p. year_column L df p \<longrightarrow> Q (rows df ! i ! p))"
proof
  assume l: "\<forall>r \<in> set (long_table L df). Q (val r)"
  show "\<forall>i < length (rows df). \<forall>p. year_column L df p \<longrightarrow> Q (rows df ! i ! p)"
  proof (intro allI impI)
    fix i p
    assume i: "i < length (rows df)" and p: "year_column L df p"
    from year_column_ex [OF p] obtain k where k: "k < length (year_columns L df)"
      "year_columns L df ! k = (p, year_label L (columns df ! p))" by blast
    from long_table_mem [OF wf k(1) i] l have "Q (val (cell_row L df k i))" by blast
    then show "Q (rows df ! i ! p)" by (simp add: cell_row_def k(2))
  qed
next
  assume r: "\<forall>i < length (rows df). \<forall>p. year_column L df p \<longrightarrow> Q (rows df ! i ! p)"
  show "\<forall>r \<in> set (long_table L df). Q (val r)"
  proof
    fix x assume "x \<in> set (long_table L df)"
    from long_table_cases [OF wf this] obtain k i where ki: "k < length (year_columns L df)"
      "i < length (rows df)" "x = cell_row L df k i" by blast
    from r ki(2) year_columns_nth(1) [OF ki(1)] show "Q (val x)"
      by (simp add: ki(3) cell_row_def)
  qed
qed

lemma idx_long_table:
  assumes "n < length (long_table L df)"
  shows "idx (long_table L df ! n) = n"
proof -
  have "n < length (cleaned_colnames_map L df) * length (rows df)"
    using assms by (simp add: length_long_table)
  from long_table_nth [OF this] show ?thesis
    by (simp add: long_of_def case_prod_beta)
qed

lemma long_idx_inj:
  assumes "r \<in> set (long_table L df)" "r' \<in> set (long_table L df)" "idx r = idx r'"
  shows "r = r'"
proof -
  from assms(1) obtain n where n: "n < length (long_table L df)" "r = long_table L df ! n"
    by (auto simp: in_set_conv_nth)
  from assms(2) obtain m where m: "m < length (long_table L df)" "r' = long_table L df ! m"
    by (auto simp: in_set_conv_nth)
  from assms(3) n m have "n = m" by (simp add: idx_long_table)
  with n m show ?thesis by simp
qed

lemma present_iff:
  assumes run: "process_dataframe L df = Inr (out, ws)"
    and r: "r \<in> set (long_table L df)"
  shows "idx r \<in> idx ` set out \<longleftrightarrow> to_numeric L (val r) \<noteq> NA"
proof
  assume "idx r \<in> idx ` set out"
  then obtain n where n: "n \<in> set out" "idx n = idx r" by auto
  from out_origin [OF run n(1)] obtain r' x where r': "r' \<in> set (long_table L df)"
    "to_numeric L (val r') = Num x" "long_row.truncate n = r'\<lparr>val := Num x\<rparr>" by blast
  from r'(3) have "idx n = idx r'"
    by (metis truncate_fields(1) long_row.select_convs(1) long_row.surjective long_row.update_convs(6))
  with n(2) have "idx r = idx r'" by simp
  from long_idx_inj [OF r r'(1) this] r'(2) show "to_numeric L (val r) \<noteq> NA" by simp
next
  assume "to_numeric L (val r) \<noteq> NA"
  with to_numeric_cases [of L "val r"] obtain x where x: "to_numeric L (val r) = Num x" by blast
  from cell_survives [OF run r x] obtain n where n: "n \<in> set out" "long_row.truncate n = r\<lparr>val := Num x\<rparr>"
    by blast
  from n(2) have "idx n = idx r"
    by (metis truncate_fields(1) long_row.select_convs(1) long_row.surjective long_row.update_convs(6))
  with n(1) show "idx r \<in> idx ` set out" by force
qed

subsection \<open>The warnings\<close>

lemma check_duplicates_warnings:
  assumes "check_duplicates df = Inr w1"
  shows "InvalidValues fs rest \<notin> set w1"
  using assms by (auto simp: check_duplicates_def Let_def split: if_splits option.splits)

lemma invalid_warning_iff:
  assumes run: "process_dataframe L df = Inr (out, ws)"
  shows "InvalidValues fs rest \<in> set ws \<longleftrightarrow>
           failed_rows L df \<noteq> [] \<and>
           fs = map failure_of (take 5 (failed_rows L df)) \<and>
           rest = (if 5 < length (failed_rows L df) then Some (length (failed_rows L df) - 5) else None)"
proof -
  from process_dataframe_Inr(3) [OF run] obtain w1 where
    w1: "check_duplicates df = Inr w1" "ws = w1 @ coercion_warning L (long_table L df)" by blast
  show ?thesis
    unfolding w1(2) using check_duplicates_warnings [OF w1(1)]
    by (auto simp: coercion_warning_def failed_rows_def Let_def)
qed

lemma failed_cell:
  assumes wf: "well_formed df"
    and i: "i < length (rows df)"
    and p: "year_column L df p"
    and c: "rows df ! i ! p \<noteq> NA" "to_numeric L (rows df ! i ! p) = NA"
  shows "\<exists>r \<in> set (failed_rows L df).
           failure_of r = \<lparr>f_indicator = lookup (columns df) (rows df ! i) col_indicator,
                           f_year = year_label L (columns df ! p),
                           f_raw = rows df ! i ! p\<rparr>"
proof -
  from year_column_ex [OF p] obtain k where k: "k < length (year_columns L df)"
    "year_columns L df ! k = (p, year_label L (columns df ! p))" by blast
  have "cell_row L df k i \<in> set (long_table L df)"
    by (rule long_table_mem [OF wf k(1) i])
  moreover have "failed_mask L (cell_row L df k i)"
    using c by (simp add: failed_mask_def notna_def isna_def cell_row_def k(2))
  ultimately have "cell_row L df k i \<in> set (failed_rows L df)"
    by (simp add: failed_rows_def)
  moreover have "failure_of (cell_row L df k i) =
      \<lparr>f_indicator = lookup (columns df) (rows df ! i) col_indicator,
       f_year = year_label L (columns df ! p), f_raw = rows df ! i ! p\<rparr>"
    by (simp add: failure_of_def cell_row_def k(2))
  ultimately show ?thesis by blast
qed

lemma truncate_eq_fields:
  assumes "long_row.truncate n = r\<lparr>val := v\<rparr>"
  shows "idx n = idx r" "category n = category r" "indicator n = indicator r"
    "unit n = unit r" "year n = year r" "val n = v"
  using arg_cong [OF assms, of idx] arg_cong [OF assms, of category]
    arg_cong [OF assms, of indicator] arg_cong [OF assms, of unit]
    arg_cong [OF assms, of year] arg_cong [OF assms, of val]
  by simp_all

lemma cell_row_fields [simp]:
  "idx (cell_row L df k i) = k * length (rows df) + i"
  "category (cell_row L df k i) = lookup (columns df) (rows df ! i) col_form"
  "indicator (cell_row L df k i) = lookup (columns df) (rows df ! i) col_indicator"
  "unit (cell_row L df k i) = lookup (columns df) (rows df ! i) col_unit"
  "year (cell_row L df k i) = snd (year_columns L df ! k)"
  "val (cell_row L df k i) = rows df ! i ! fst (year_columns L df ! k)"
  by (simp_all add: cell_row_def)

lemma cell_in_table:
  assumes wf: "well_formed df"
    and run: "process_dataframe L df = Inr (out, ws)"
    and k: "k < length (year_columns L df)"
    and i: "i < length (rows df)"
    and x: "to_numeric L (rows df ! i ! fst (year_columns L df ! k)) = Num x"
  shows "\<exists>n \<in> set out. idx n = k * length (rows df) + i \<and>
           category n = lookup (columns df) (rows df ! i) col_form \<and>
           indicator n = lookup (columns df) (rows df ! i) col_indicator \<and>
           unit n = lookup (columns df) (rows df ! i) col_unit \<and>
           year n = snd (year_columns L df ! k) \<and> val n = Num x"
proof -
  have m: "cell_row L df k i \<in> set (long_table L df)"
    by (rule long_table_mem [OF wf k i])
  have "to_numeric L (val (cell_row L df k i)) = Num x"
    using x by simp
  from cell_survives [OF run m this] obtain n where n: "n \<in> set out"
    "long_row.truncate n = (cell_row L df k i)\<lparr>val := Num x\<rparr>" by blast
  from n(1) truncate_eq_fields [OF n(2)] show ?thesis
    by (intro bexI [of _ n]) simp_all
qed

lemma check_duplicates_Inr:
  assumes "check_duplicates df = Inr w1"
  shows "({c. 2 \<le> count_list (column df col_indicator) c} = {} \<and> w1 = []) \<or>
         (\<exists>ns. w1 = [DuplicateIndicators ns] \<and> distinct ns \<and>
               Str ` set ns = {c. 2 \<le> count_list (column df col_indicator) c})"
proof -
  let ?names = "column df col_indicator"
  let ?d = "unique (select ?names (duplicated ?names))"
  show ?thesis
  proof (cases "?d = []")
    case True
    then have "set ?d = {}" by simp
    then have "{c. 2 \<le> count_list ?names c} = {}"
      by (simp only: set_duplicates)
    moreover have "w1 = []"
      using assms True by (simp add: check_duplicates_def Let_def)
    ultimately show ?thesis by blast
  next
    case False
    with assms obtain ns where ns: "str_items ?d = Some ns" "w1 = [DuplicateIndicators ns]"
      by (auto simp: check_duplicates_def Let_def split: option.splits)
    from str_items_Some [OF ns(1)] have d: "?d = map Str ns" .
    have "distinct (map Str ns)"
      using distinct_unique [of "select ?names (duplicated ?names)"] by (simp only: d)
    then have "distinct ns" by (simp add: distinct_map)
    moreover have "Str ` set ns = {c. 2 \<le> count_list ?names c}"
      using set_duplicates [of ?names] by (simp only: d set_map)
    ultimately show ?thesis using ns(2) by blast
  qed
qed

lemma coercion_warning_no_duplicates:
  "DuplicateIndicators ns \<notin> set (coercion_warning L long)"
  by (simp add: coercion_warning_def Let_def)

subsection \<open>When the function stops and when it returns\<close>

lemma fatal_errors:
  "process_dataframe L df = Inl EmptyTableError \<longleftrightarrow> rows df = [] \<or> columns df = []"
  "process_dataframe L df = Inl (SchemaError ms) \<longleftrightarrow>
     rows df \<noteq> [] \<and> columns df \<noteq> [] \<and> ms \<noteq> [] \<and>
     ms = filter (\<lambda>col. col \<notin> set (columns df)) REQUIRED_COLS"
  by (auto simp: process_dataframe_unfold empty_def check_duplicates_def Let_def
           split: sum.splits option.splits)

lemma str_items_all_Str:
  assumes "\<forall>c \<in> set cs. \<exists>s. c = Str s"
  shows "\<exists>ns. str_items cs = Some ns"
proof -
  from assms have "\<exists>ns. cs = map Str ns"
  proof (induction cs)
    case Nil
    then show ?case by simp
  next
    case (Cons c cs)
    then obtain s ns where "c = Str s" "cs = map Str ns" by auto
    then have "c # cs = map Str (s # ns)" by simp
    then show ?case by (rule exI)
  qed
  then show ?thesis using str_items_map_Str by blast
qed

lemma returns_on_text_identifiers:
  assumes wf: "well_formed df"
    and ne: "rows df \<noteq> []"
    and req: "set REQUIRED_COLS \<subseteq> set (columns df)"
    and names: "\<forall>r \<in> set (rows df). \<exists>s. lookup (columns df) r col_indicator = Str s"
    and units: "\<forall>r \<in> set (rows df). \<forall>x. lookup (columns df) r col_unit \<noteq> Num x"
    and free: "col_value \<notin> set (columns df)"
    and adds: "adds_to_str L (column df col_unit)"
  shows "\<exists>out ws. process_dataframe L df = Inr (out, ws)"
proof -
  have e: "\<not> empty df"
    using ne req by (auto simp: empty_def REQUIRED_COLS_def)
  have m: "filter (\<lambda>col. col \<notin> set (columns df)) REQUIRED_COLS = []"
    using req by (auto simp: filter_empty_conv)
  let ?names = "column df col_indicator"
  have "\<forall>c \<in> set (unique (select ?names (duplicated ?names))). \<exists>s. c = Str s"
  proof
    fix c assume "c \<in> set (unique (select ?names (duplicated ?names)))"
    then have "2 \<le> count_list ?names c" by (simp add: set_duplicates)
    then have "c \<in> set ?names" by (rule_tac ccontr) (simp add: count_list_0_iff)
    with names show "\<exists>s. c = Str s" by (auto simp: column_def)
  qed
  from str_items_all_Str [OF this] obtain ns where
    "str_items (unique (select ?names (duplicated ?names))) = Some ns" by blast
  then have "\<exists>w1. check_duplicates df = Inr w1"
    by (simp add: check_duplicates_def Let_def)
  then obtain w1 where w1: "check_duplicates df = Inr w1" by blast
  let ?kept = "dropna (map (coerce L) (long_table L df))"
  have "\<not> (\<exists>r \<in> set ?kept. \<exists>x. unit r = Num x)"
  proof
    assume "\<exists>r \<in> set ?kept. \<exists>x. unit r = Num x"
    then obtain r x where r: "r \<in> set (long_table L df)" "unit (coerce L r) = Num x"
      by (auto simp: dropna_def)
    from long_table_cases [OF wf r(1)] obtain k i where ki: "i < length (rows df)"
      "r = cell_row L df k i" by blast
    from r(2) ki(2) have "lookup (columns df) (rows df ! i) col_unit = Num x"
      by (simp add: coerce_def)
    with units ki(1) show False by (metis nth_mem)
  qed
  then obtain out where "add_labels L ?kept = Some out"
    using add_labels_None_iff [of L ?kept] by (cases "add_labels L ?kept") auto
  with e m w1 free adds show ?thesis
    by (simp add: process_dataframe_unfold value_name_taken_iff)
qed

subsection \<open>Taking a column out\<close>

lemma positions_Nil [simp]: "positions x [] = []"
  by (simp add: positions_def)

lemma positions_append:
  "positions x (as @ bs) = positions x as @ map ((+) (length as)) (positions x bs)"
proof -
  let ?m = "length as" and ?n = "length bs"
  let ?P = "\<lambda>i. (as @ bs) ! i = x"
  have "map ((+) ?m) [0..<?n] = map (\<lambda>i. i + ?m) [0..<?n]"
    by (rule map_cong) simp_all
  also have "\<dots> = [?m..<?n + ?m]"
    by (rule map_add_upt)
  finally have "map ((+) ?m) [0..<?n] = [?m..<?m + ?n]"
    by (simp only: add.commute)
  then have split: "[0..<?m + ?n] = [0..<?m] @ map ((+) ?m) [0..<?n]"
    by (simp only: upt_add_eq_append [OF le0])
  have 1: "filter ?P [0..<?m] = filter (\<lambda>i. as ! i = x) [0..<?m]"
    by (rule filter_cong) (simp_all add: nth_append)
  have 2: "filter ?P (map ((+) ?m) [0..<?n]) = map ((+) ?m) (filter (\<lambda>i. bs ! i = x) [0..<?n])"
    by (simp only: filter_map comp_def nth_append_length_plus)
  have "positions x (as @ bs) = filter ?P [0..<?m + ?n]"
    by (simp add: positions_def)
  also have "\<dots> = filter ?P [0..<?m] @ filter ?P (map ((+) ?m) [0..<?n])"
    by (simp only: split filter_append)
  also have "\<dots> = positions x as @ map ((+) ?m) (positions x bs)"
    by (simp only: 1 2 positions_def)
  finally show ?thesis .
qed

lemma positions_Cons:
  "positions x (a # bs) = (if a = x then [0] else []) @ map Suc (positions x bs)"
  using positions_append [of x "[a]" bs] by (simp add: positions_def)

lemma positions_drop_nth:
  assumes "j < length xs" "xs ! j \<noteq> x"
  shows "positions x (drop_nth j xs) = map (shift j) (positions x xs)"
proof -
  have xs: "xs = take j xs @ xs ! j # drop (Suc j) xs"
    using assms(1) by (simp add: id_take_nth_drop)
  have l: "length (take j xs) = j" using assms(1) by simp
  have 1: "positions x xs =
      positions x (take j xs) @ map ((+) j) (map Suc (positions x (drop (Suc j) xs)))"
    using positions_append [of x "take j xs" "xs ! j # drop (Suc j) xs"] assms(2) xs l
    by (simp add: positions_Cons)
  have 2: "positions x (drop_nth j xs) =
      positions x (take j xs) @ map ((+) j) (positions x (drop (Suc j) xs))"
    unfolding drop_nth_def using positions_append [of x "take j xs" "drop (Suc j) xs"] l
    by simp
  have 3: "map (shift j) (positions x (take j xs)) = positions x (take j xs)"
  proof (rule map_idI)
    fix p assume "p \<in> set (positions x (take j xs))"
    then have "p < j" by (auto simp: positions_def)
    then show "shift j p = p" by (simp add: shift_def)
  qed
  show ?thesis
    unfolding 2 by (subst 1) (simp add: 3 shift_def comp_def)
qed

lemma remdups_map_inj_on:
  assumes "inj_on f (set xs)"
  shows "remdups (map f xs) = map f (remdups xs)"
  using assms
proof (induction xs)
  case Nil
  then show ?case by simp
next
  case (Cons a xs)
  then have "f a \<in> f ` set xs \<longleftrightarrow> a \<in> set xs"
    by (auto simp: inj_on_def)
  with Cons show ?case by simp
qed

lemma unique_map_inj_on:
  assumes "inj_on f (set xs)"
  shows "unique (map f xs) = map f (unique xs)"
  using assms remdups_map_inj_on [of f "rev xs"]
  by (simp add: unique_def rev_map)

lemma inj_on_shift: "inj_on (shift j) {p. p \<noteq> j}"
  by (auto simp: inj_on_def shift_def split: if_splits)

lemma length_drop_nth: "j < length xs \<Longrightarrow> length (drop_nth j xs) = length xs - 1"
  by (simp add: drop_nth_def)

lemma filter_drop_nth:
  assumes "j < length xs" "\<not> P (xs ! j)"
  shows "filter P (drop_nth j xs) = filter P xs"
proof -
  have "filter P xs = filter P (take j xs @ xs ! j # drop (Suc j) xs)"
    by (rule arg_cong [OF id_take_nth_drop [OF assms(1)]])
  then show ?thesis using assms(2) by (simp add: drop_nth_def)
qed

lemma set_drop_nth:
  assumes "j < length xs" "c \<noteq> xs ! j"
  shows "c \<in> set (drop_nth j xs) \<longleftrightarrow> c \<in> set xs"
proof -
  have "set xs = set (take j xs @ xs ! j # drop (Suc j) xs)"
    by (rule arg_cong [OF id_take_nth_drop [OF assms(1)]])
  then show ?thesis using assms(2) by (auto simp: drop_nth_def)
qed

lemma lookup_drop_nth:
  assumes len: "length r = length cols" and j: "j < length cols" and c: "cols ! j \<noteq> c"
  shows "lookup (drop_nth j cols) (drop_nth j r) c = lookup cols r c"
proof -
  have jr: "j < length r" using j len by simp
  have "zip cols r = zip (take j cols @ cols ! j # drop (Suc j) cols)
                         (take j r @ r ! j # drop (Suc j) r)"
    using id_take_nth_drop [OF j] id_take_nth_drop [OF jr] by metis
  also have "\<dots> = zip (take j cols) (take j r) @ (cols ! j, r ! j) #
                     zip (drop (Suc j) cols) (drop (Suc j) r)"
    using len by simp
  finally have 1: "map_of (zip cols r) c =
      map_of (zip (take j cols) (take j r) @ zip (drop (Suc j) cols) (drop (Suc j) r)) c"
    using c by (auto simp: map_add_def split: option.splits)
  have 2: "zip (drop_nth j cols) (drop_nth j r) =
      zip (take j cols) (take j r) @ zip (drop (Suc j) cols) (drop (Suc j) r)"
    using len by (simp add: drop_nth_def)
  show ?thesis
    by (simp only: lookup_def 1 2)
qed

lemma cell_at_drop_nth:
  assumes "j < length r" "p \<noteq> j"
  shows "cell_at (drop_nth j r) (shift j p) = cell_at r p"
proof (cases "p < j")
  case True
  then have "p < length r - Suc 0" "p < length r"
    using assms(1) by simp_all
  with True show ?thesis
    using assms by (simp add: cell_at_def shift_def drop_nth_def nth_append)
next
  case False
  with assms(2) have "j < p" by simp
  then show ?thesis
    using assms(1) by (auto simp: cell_at_def shift_def drop_nth_def nth_append)
qed

lemma columns_drop_column [simp]: "columns (drop_column j df) = drop_nth j (columns df)"
  and rows_drop_column [simp]: "rows (drop_column j df) = map (drop_nth j) (rows df)"
  by (simp_all add: drop_column_def)

lemma cleaned_drop_column:
  assumes "j < length (columns df)" "digits_of L (columns df ! j) = []"
  shows "cleaned_colnames_map L (drop_column j df) = cleaned_colnames_map L df"
proof -
  have "filter (\<lambda>col. digits_of L col \<noteq> []) (filter (\<lambda>col. col \<notin> set id_vars) (drop_nth j (columns df)))
      = filter (\<lambda>col. digits_of L col \<noteq> []) (filter (\<lambda>col. col \<notin> set id_vars) (columns df))"
    using filter_drop_nth [OF assms(1), of "\<lambda>col. col \<notin> set id_vars \<and> digits_of L col \<noteq> []"] assms(2)
    by (simp add: conj_commute)
  then show ?thesis
    by (simp add: cleaned_colnames_map_def value_vars_def)
qed

lemma rename_drop_nth: "rename m (drop_nth j cols) = drop_nth j (rename m cols)"
  by (simp add: rename_def drop_nth_def take_map drop_map)

lemma year_columns_drop_column:
  assumes j: "j < length (columns df)" and d: "digits_of L (columns df ! j) = []"
  shows "year_columns L (drop_column j df) = map (apfst (shift j)) (year_columns L df)"
proof -
  let ?m = "cleaned_colnames_map L df"
  let ?cols = "rename ?m (columns df)"
  let ?g = "\<lambda>y. map (\<lambda>p. (p, y)) (positions (Year y) ?cols)"
  have nj: "\<not> year_column L df j"
    using d by (simp add: year_column_def)
  have cj: "?cols ! j = Name (columns df ! j)"
    using rename_nth [OF j] nj by simp
  have pos: "positions (Year y) (drop_nth j ?cols) = map (shift j) (positions (Year y) ?cols)" for y
    by (rule positions_drop_nth) (simp_all add: j cj)
  have "year_columns L (drop_column j df) =
      unique (concat (map (\<lambda>y. map (\<lambda>p. (p, y)) (positions (Year y) (drop_nth j ?cols))) (map snd ?m)))"
    by (simp add: year_columns_def value_columns_def cleaned_drop_column [OF j d] rename_drop_nth)
  also have "\<dots> = unique (concat (map (\<lambda>y. map (apfst (shift j)) (?g y)) (map snd ?m)))"
    by (simp add: pos comp_def)
  also have "\<dots> = unique (map (apfst (shift j)) (concat (map ?g (map snd ?m))))"
    by (simp add: map_concat comp_def)
  also have "\<dots> = map (apfst (shift j)) (unique (concat (map ?g (map snd ?m))))"
  proof (rule unique_map_inj_on)
    have "set (concat (map ?g (map snd ?m))) \<subseteq> {p. p \<noteq> j} \<times> UNIV"
      using cj by (auto simp: positions_def)
    moreover have "inj_on (apfst (shift j)) ({p. p \<noteq> j} \<times> UNIV)"
      using inj_on_shift [of j] by (auto simp: inj_on_def)
    ultimately show "inj_on (apfst (shift j)) (set (concat (map ?g (map snd ?m))))"
      by (rule inj_on_subset [rotated])
  qed
  finally show ?thesis
    by (simp add: year_columns_def value_columns_def)
qed

lemma product_map:
  "List.product (map f xs) (map g ys) = map (map_prod f g) (List.product xs ys)"
  by (induction xs) (simp_all add: comp_def)

lemma enumerate_map:
  "enumerate n (map f xs) = map (apsnd f) (enumerate n xs)"
  by (induction xs arbitrary: n) simp_all

lemma long_table_drop_column:
  assumes wf: "well_formed df"
    and j: "j < length (columns df)"
    and nid: "columns df ! j \<notin> set id_vars"
    and d: "digits_of L (columns df ! j) = []"
  shows "long_table L (drop_column j df) = long_table L df"
proof -
  let ?cols = "rename (cleaned_colnames_map L df) (columns df)"
  let ?E = "enumerate 0 (List.product (year_columns L df) (rows df))"
  let ?h = "apsnd (map_prod (apfst (shift j)) (drop_nth j))"
  have nj: "\<not> year_column L df j"
    using d by (simp add: year_column_def)
  have cj: "?cols ! j = Name (columns df ! j)"
    using rename_nth [OF j] nj by simp
  have "long_table L (drop_column j df) =
      map (long_of (drop_nth j ?cols))
        (enumerate 0 (List.product (map (apfst (shift j)) (year_columns L df))
                                   (map (drop_nth j) (rows df))))"
    by (simp add: long_table_eq year_columns_drop_column [OF j d]
                  cleaned_drop_column [OF j d] rename_drop_nth)
  also have "\<dots> = map (long_of (drop_nth j ?cols)) (map ?h ?E)"
    by (simp only: product_map enumerate_map)
  also have "\<dots> = map (long_of ?cols) ?E"
  proof -
    have "long_of (drop_nth j ?cols) (?h e) = long_of ?cols e" if e: "e \<in> set ?E" for e
    proof -
      obtain n p y r where e': "e = (n, (p, y), r)"
        by (metis prod.exhaust)
      from e have "n < length (List.product (year_columns L df) (rows df)) \<and>
          List.product (year_columns L df) (rows df) ! n = ((p, y), r)"
        unfolding e' in_set_enumerate_eq by simp
      then have "((p, y), r) \<in> set (List.product (year_columns L df) (rows df))"
        by (metis nth_mem)
      then have "(p, y) \<in> set (year_columns L df)" "r \<in> set (rows df)"
        by simp_all
      then have p: "year_column L df p" and r: "length r = length (columns df)"
        using wf by (auto simp: year_columns_def set_value_columns well_formed_def list_all_iff)
      from p nj have pj: "p \<noteq> j" by auto
      have lk: "lookup (drop_nth j ?cols) (drop_nth j r) (Name c) = lookup ?cols r (Name c)"
        if "c \<in> set id_vars" for c
      proof (rule lookup_drop_nth)
        show "length r = length ?cols" using r by simp
        show "j < length ?cols" using j by simp
        show "?cols ! j \<noteq> Name c" using cj nid that by auto
      qed
      have ce: "cell_at (drop_nth j r) (shift j p) = cell_at r p"
        by (rule cell_at_drop_nth) (simp_all add: r j pj)
      show ?thesis
        by (simp add: e' long_of_def lk id_vars_mem ce)
    qed
    then show ?thesis by simp
  qed
  finally show ?thesis by (simp add: long_table_eq)
qed

subsection \<open>Duplicated indicator names\<close>

text \<open>
  On a run that returns, a value of the indicator column that occurs on more than one
  raw row is a text, the function emits one warning about duplicates, and that warning
  names it exactly once. Every raw row bearing it still gives its own row of the table
  for each year column whose cell coerces to a number, under its own index: the rows
  are not merged.
\<close>

lemma duplicate_named_once:
  assumes wf: "well_formed df"
    and run: "process_dataframe L df = Inr (out, ws)"
    and dup: "2 \<le> count_list (column df col_indicator) c"
  shows "(\<exists>s names. c = Str s \<and> DuplicateIndicators names \<in> set ws \<and>
            count_list names s = 1 \<and>
            (\<forall>names'. DuplicateIndicators names' \<in> set ws \<longrightarrow> names' = names)) \<and>
         (\<forall>i < length (rows df). \<forall>k < length (year_columns L df). \<forall>x.
            lookup (columns df) (rows df ! i) col_indicator = c \<longrightarrow>
            to_numeric L (rows df ! i ! fst (year_columns L df ! k)) = Num x \<longrightarrow>
            (\<exists>n \<in> set out. idx n = k * length (rows df) + i \<and> indicator n = c \<and>
               year n = snd (year_columns L df ! k) \<and> val n = Num x))"
proof
  from process_dataframe_Inr(3) [OF run] obtain w1 where
    w1: "check_duplicates df = Inr w1" "ws = w1 @ coercion_warning L (long_table L df)" by blast
  from dup have ne: "{c. 2 \<le> count_list (column df col_indicator) c} \<noteq> {}" by blast
  with check_duplicates_Inr [OF w1(1)] obtain ns where ns: "w1 = [DuplicateIndicators ns]"
    "distinct ns" "Str ` set ns = {c. 2 \<le> count_list (column df col_indicator) c}" by blast
  from dup ns(3) obtain s where s: "c = Str s" "s \<in> set ns" by blast
  have "count_list ns s = 1"
    by (rule count_list_distinct [OF ns(2) s(2)])
  moreover have "DuplicateIndicators ns \<in> set ws"
    by (simp add: w1(2) ns(1))
  moreover have "\<forall>names'. DuplicateIndicators names' \<in> set ws \<longrightarrow> names' = ns"
    by (simp add: w1(2) ns(1) coercion_warning_no_duplicates)
  ultimately show "\<exists>s names. c = Str s \<and> DuplicateIndicators names \<in> set ws \<and>
            count_list names s = 1 \<and>
            (\<forall>names'. DuplicateIndicators names' \<in> set ws \<longrightarrow> names' = names)"
    using s(1) by blast
next
  show "\<forall>i < length (rows df). \<forall>k < length (year_columns L df). \<forall>x.
            lookup (columns df) (rows df ! i) col_indicator = c \<longrightarrow>
            to_numeric L (rows df ! i ! fst (year_columns L df ! k)) = Num x \<longrightarrow>
            (\<exists>n \<in> set out. idx n = k * length (rows df) + i \<and> indicator n = c \<and>
               year n = snd (year_columns L df ! k) \<and> val n = Num x)"
  proof (intro allI impI)
    fix i k x
    assume i: "i < length (rows df)" and k: "k < length (year_columns L df)"
      and c: "lookup (columns df) (rows df ! i) col_indicator = c"
      and x: "to_numeric L (rows df ! i ! fst (year_columns L df ! k)) = Num x"
    from cell_in_table [OF wf run k i x] c
    show "\<exists>n \<in> set out. idx n = k * length (rows df) + i \<and> indicator n = c \<and>
               year n = snd (year_columns L df ! k) \<and> val n = Num x"
      by auto
  qed
qed

text \<open>
  With \<^verbatim>\<open>M1\<close> on two rows the warning names it once and both rows are in the table.
\<close>

lemma duplicate_named_once_example:
  "well_formed duplicate_m1 \<and>
   process_dataframe sample_lib duplicate_m1 = Inr (duplicate_m1_out, [DuplicateIndicators [ascii ''M1'']]) \<and>
   2 \<le> count_list (column duplicate_m1 col_indicator) (Str (ascii ''M1'')) \<and>
   (\<exists>n \<in> set duplicate_m1_out. idx n = 0 \<and> indicator n = Str (ascii ''M1'') \<and> val n = Num (Fin 6)) \<and>
   (\<exists>n \<in> set duplicate_m1_out. idx n = 1 \<and> indicator n = Str (ascii ''M1'') \<and> val n = Num (Fin 7))"
proof -
  have wf: "well_formed duplicate_m1" by code_simp
  have run: "process_dataframe sample_lib duplicate_m1 =
               Inr (duplicate_m1_out, [DuplicateIndicators [ascii ''M1'']])" by code_simp
  have dup: "2 \<le> count_list (column duplicate_m1 col_indicator) (Str (ascii ''M1''))" by code_simp
  have n: "length (rows duplicate_m1) = 2" "length (year_columns sample_lib duplicate_m1) = 1"
    by code_simp+
  have c: "lookup (columns duplicate_m1) (rows duplicate_m1 ! 0) col_indicator = Str (ascii ''M1'')"
    "lookup (columns duplicate_m1) (rows duplicate_m1 ! 1) col_indicator = Str (ascii ''M1'')"
    "to_numeric sample_lib (rows duplicate_m1 ! 0 ! fst (year_columns sample_lib duplicate_m1 ! 0)) = Num (Fin 6)"
    "to_numeric sample_lib (rows duplicate_m1 ! 1 ! fst (year_columns sample_lib duplicate_m1 ! 0)) = Num (Fin 7)"
    by code_simp+
  note t = duplicate_named_once [OF wf run dup, THEN conjunct2, rule_format, of _ 0]
  from t [of 0 "Fin 6"] t [of 1 "Fin 7"] n c wf run dup show ?thesis
    by auto
qed

subsection \<open>Columns whose label has no digit\<close>

text \<open>
  A column outside the identifier columns whose label has no digit, and is not the label
  \<^verbatim>\<open>melt\<close> is to give to the value column, is no value column of the long table, and
  the function does on the frame exactly what it does on the frame without that column:
  the same error, or the same table and the same warnings. (The frame has another
  column besides, so that taking the column out does not leave a frame without
  columns.)
\<close>

lemma digitless_column_ignored:
  assumes wf: "well_formed df"
    and j: "j < length (columns df)"
    and other: "1 < length (columns df)"
    and nid: "columns df ! j \<notin> set REQUIRED_COLS"
    and d: "digits_of L (columns df ! j) = []"
    and nv: "columns df ! j \<noteq> col_value"
  shows "j \<notin> fst ` set (year_columns L df) \<and>
         process_dataframe L df = process_dataframe L (drop_column j df)"
proof
  have "\<not> year_column L df j"
    using d by (simp add: year_column_def)
  then show "j \<notin> fst ` set (year_columns L df)"
    by (auto simp: year_columns_def set_value_columns)
next
  have nid': "columns df ! j \<notin> set id_vars"
    using nid by (simp add: id_vars_def)
  have "length (drop_nth j (columns df)) \<noteq> 0"
    using other j by (simp add: length_drop_nth)
  then have "drop_nth j (columns df) \<noteq> []" by simp
  moreover have "columns df \<noteq> []" using j by auto
  ultimately have 1: "empty (drop_column j df) = empty df"
    by (simp add: empty_def)
  have 2: "filter (\<lambda>col. col \<notin> set (columns (drop_column j df))) REQUIRED_COLS =
           filter (\<lambda>col. col \<notin> set (columns df)) REQUIRED_COLS"
  proof (rule filter_cong [OF refl])
    fix c assume "c \<in> set REQUIRED_COLS"
    with nid have "c \<noteq> columns df ! j" by auto
    from set_drop_nth [OF j this]
    show "(c \<notin> set (columns (drop_column j df))) = (c \<notin> set (columns df))" by simp
  qed
  have col: "column (drop_column j df) c = column df c" if "c \<in> set REQUIRED_COLS" for c
  proof -
    have "lookup (drop_nth j (columns df)) (drop_nth j r) c = lookup (columns df) r c"
      if "r \<in> set (rows df)" for r
    proof (rule lookup_drop_nth)
      show "length r = length (columns df)"
        using wf that by (simp add: well_formed_def list_all_iff)
      show "j < length (columns df)" by (rule j)
      show "columns df ! j \<noteq> c"
        using nid \<open>c \<in> set REQUIRED_COLS\<close> by auto
    qed
    then show ?thesis by (simp add: column_def)
  qed
  have 3: "check_duplicates (drop_column j df) = check_duplicates df"
    by (simp add: check_duplicates_def col REQUIRED_COLS_def)
  have 5: "column (drop_column j df) col_unit = column df col_unit"
    by (simp add: col REQUIRED_COLS_def)
  have 6: "value_name_taken L (drop_column j df) = value_name_taken L df"
    using set_drop_nth [OF j nv [symmetric]] by (simp add: value_name_taken_iff)
  have 4: "long_table L (drop_column j df) = long_table L df"
    by (rule long_table_drop_column [OF wf j nid' d])
  show "process_dataframe L df = process_dataframe L (drop_column j df)"
    unfolding process_dataframe_unfold 1 2 3 4 5 6 ..
qed

text \<open>
  The scenario with a column of notes added gives the table and the warning of the
  scenario. A label in full-width digits is read as its year, like one in ASCII digits.
\<close>

lemma digitless_column_ignored_example:
  "well_formed with_notes \<and> digits_of sample_lib (columns with_notes ! 4) = [] \<and>
   4 \<notin> fst ` set (year_columns sample_lib with_notes) \<and>
   drop_column 4 with_notes = scenario \<and>
   process_dataframe sample_lib with_notes = Inr (scenario_out, scenario_warnings)"
proof -
  have wf: "well_formed with_notes" by code_simp
  have j: "4 < length (columns with_notes)" and other: "1 < length (columns with_notes)"
    by code_simp+
  have nid: "columns with_notes ! 4 \<notin> set REQUIRED_COLS" by code_simp
  have d: "digits_of sample_lib (columns with_notes ! 4) = []" by code_simp
  have nv: "columns with_notes ! 4 \<noteq> col_value" by code_simp
  have e: "drop_column 4 with_notes = scenario" by code_simp
  have run: "process_dataframe sample_lib scenario = Inr (scenario_out, scenario_warnings)"
    by code_simp
  from digitless_column_ignored [OF wf j other nid d nv] wf d e run
  show ?thesis by simp
qed

lemma full_width_year:
  "digits_of sample_lib [0xFF12, 0xFF10, 0xFF12, 0xFF11, 0x5E74] = [0xFF12, 0xFF10, 0xFF12, 0xFF11] \<and>
   year_label sample_lib [0xFF12, 0xFF10, 0xFF12, 0xFF11, 0x5E74] = 2021"
  by code_simp

section \<open>The claims\<close>

text \<open>
  C1. The claim asks for an individual entry for every cell that fails the coercion,
  none being summarised as a count. The function names the first five only
  (\<^verbatim>\<open>failed_rows.head(5)\<close>, "only show the first five errors, to avoid flooding the
  screen" in the source's comment) and appends the count of the others. With six failing
  cells the one of 2016 is counted, not named.
\<close>

theorem sixth_failure_counterexample:
  "process_dataframe sample_lib six_bad =
     Inr ([],
       [InvalidValues
          [\<lparr>f_indicator = Str (ascii ''M1''), f_year = 2011, f_raw = Str (ascii ''x'')\<rparr>,
           \<lparr>f_indicator = Str (ascii ''M1''), f_year = 2012, f_raw = Str (ascii ''x'')\<rparr>,
           \<lparr>f_indicator = Str (ascii ''M1''), f_year = 2013, f_raw = Str (ascii ''x'')\<rparr>,
           \<lparr>f_indicator = Str (ascii ''M1''), f_year = 2014, f_raw = Str (ascii ''x'')\<rparr>,
           \<lparr>f_indicator = Str (ascii ''M1''), f_year = 2015, f_raw = Str (ascii ''x'')\<rparr>]
          (Some 1)])"
  by code_simp

text \<open>
  C1, as amended: when a cell of a year column is present and fails the coercion,
  the function emits one warning whose entries are the first five failing rows of the
  long table in its order, each carrying the indicator name, the year and the raw value;
  the failures beyond the fifth appear as their count only. When at most five cells fail,
  the failing cell has its entry.
\<close>

theorem first_five_failures_named:
  assumes wf: "well_formed df"
    and run: "process_dataframe L df = Inr (out, ws)"
    and i: "i < length (rows df)"
    and p: "year_column L df p"
    and c: "rows df ! i ! p \<noteq> NA" "to_numeric L (rows df ! i ! p) = NA"
  shows "\<exists>fs rest. InvalidValues fs rest \<in> set ws \<and>
           fs = map failure_of (take 5 (failed_rows L df)) \<and>
           rest = (if 5 < length (failed_rows L df)
                   then Some (length (failed_rows L df) - 5) else None) \<and>
           (length (failed_rows L df) \<le> 5 \<longrightarrow>
              \<lparr>f_indicator = lookup (columns df) (rows df ! i) col_indicator,
               f_year = year_label L (columns df ! p),
               f_raw = rows df ! i ! p\<rparr> \<in> set fs)"
proof -
  from failed_cell [OF wf i p c] obtain r where r: "r \<in> set (failed_rows L df)"
    "failure_of r = \<lparr>f_indicator = lookup (columns df) (rows df ! i) col_indicator,
                     f_year = year_label L (columns df ! p), f_raw = rows df ! i ! p\<rparr>"
    by blast
  let ?fs = "map failure_of (take 5 (failed_rows L df))"
  let ?rest = "if 5 < length (failed_rows L df)
               then Some (length (failed_rows L df) - 5) else None"
  from r(1) have "failed_rows L df \<noteq> []" by auto
  then have "InvalidValues ?fs ?rest \<in> set ws"
    using invalid_warning_iff [OF run, of ?fs ?rest] by simp
  moreover have "length (failed_rows L df) \<le> 5 \<Longrightarrow> failure_of r \<in> set ?fs"
    using r(1) by simp
  ultimately show ?thesis unfolding r(2) by blast
qed

text \<open>
  The scenario has one failing cell, and the warning names it.
\<close>

theorem first_five_failures_named_witness:
  "well_formed scenario \<and>
   (\<exists>fs rest. InvalidValues fs rest \<in> set scenario_warnings \<and>
      \<lparr>f_indicator = Str (ascii ''M1''), f_year = 2021, f_raw = Str (ascii ''N/A'')\<rparr> \<in> set fs)"
proof -
  have wf: "well_formed scenario" by code_simp
  have run: "process_dataframe sample_lib scenario = Inr (scenario_out, scenario_warnings)"
    by code_simp
  have i: "(0::nat) < length (rows scenario)" by code_simp
  have p: "year_column sample_lib scenario 4" by code_simp
  have c: "rows scenario ! 0 ! 4 \<noteq> NA" "to_numeric sample_lib (rows scenario ! 0 ! 4) = NA"
    by code_simp+
  have n: "length (failed_rows sample_lib scenario) \<le> 5" by code_simp
  have e: "\<lparr>f_indicator = lookup (columns scenario) (rows scenario ! 0) col_indicator,
            f_year = year_label sample_lib (columns scenario ! 4),
            f_raw = rows scenario ! 0 ! 4\<rparr> =
           \<lparr>f_indicator = Str (ascii ''M1''), f_year = 2021, f_raw = Str (ascii ''N/A'')\<rparr>"
    by code_simp
  from first_five_failures_named [OF wf run i p c] n wf show ?thesis
    unfolding e by blast
qed

text \<open>
  C2. The claim pairs the failure list with the table by (indicator name, year). Two
  raw rows may bear the same indicator name, and the failure list is cut after five
  entries. With two rows named \<^verbatim>\<open>M1\<close> the pair (\<^verbatim>\<open>M1\<close>, 2019) is listed as a failure and
  is in the table as well, and the pair (\<^verbatim>\<open>M1\<close>, 2022), absent from the table with a raw
  value that is present, is not listed.
\<close>

theorem failure_pairs_counterexample:
  "process_dataframe sample_lib twice_m1 =
     Inr ([\<lparr>idx = 1, category = Str (ascii ''A''), indicator = Str (ascii ''M1''), unit = Str (ascii ''%''),
            year = 2019, val = Num (Fin 1), label = Str (ascii ''num %'')\<rparr>],
       [DuplicateIndicators [ascii ''M1''],
        InvalidValues
          [\<lparr>f_indicator = Str (ascii ''M1''), f_year = 2019, f_raw = Str (ascii ''x'')\<rparr>,
           \<lparr>f_indicator = Str (ascii ''M1''), f_year = 2020, f_raw = Str (ascii ''x'')\<rparr>,
           \<lparr>f_indicator = Str (ascii ''M1''), f_year = 2020, f_raw = Str (ascii ''x'')\<rparr>,
           \<lparr>f_indicator = Str (ascii ''M1''), f_year = 2021, f_raw = Str (ascii ''x'')\<rparr>,
           \<lparr>f_indicator = Str (ascii ''M1''), f_year = 2021, f_raw = Str (ascii ''x'')\<rparr>]
          (Some 2)])"
  by code_simp

text \<open>
  C2, as amended, cell by cell: a row of the long table whose raw value is present
  is absent from the table returned exactly when it is one of the rows that failed the
  coercion; the entries of the warning are the first five of those rows, each of them
  the indicator name, year and raw value of a row that is absent from the table; and
  the warning is emitted whenever a row failed.
\<close>

theorem failures_are_the_absent_cells:
  assumes run: "process_dataframe L df = Inr (out, ws)"
  shows "(\<forall>r \<in> set (long_table L df). val r \<noteq> NA \<longrightarrow>
            (idx r \<notin> idx ` set out \<longleftrightarrow> r \<in> set (failed_rows L df))) \<and>
         (\<forall>fs rest. InvalidValues fs rest \<in> set ws \<longrightarrow>
            fs = map failure_of (take 5 (failed_rows L df)) \<and>
            (\<forall>f \<in> set fs. \<exists>r \<in> set (long_table L df).
               f = failure_of r \<and> val r \<noteq> NA \<and> idx r \<notin> idx ` set out)) \<and>
         (failed_rows L df \<noteq> [] \<longrightarrow> (\<exists>fs rest. InvalidValues fs rest \<in> set ws))"
proof (intro conjI ballI allI impI)
  fix r assume r: "r \<in> set (long_table L df)" and v: "val r \<noteq> NA"
  show "idx r \<notin> idx ` set out \<longleftrightarrow> r \<in> set (failed_rows L df)"
    using present_iff [OF run r] r v
    by (simp add: failed_rows_def failed_mask_def notna_def isna_def)
next
  fix fs rest assume w: "InvalidValues fs rest \<in> set ws"
  then show fs: "fs = map failure_of (take 5 (failed_rows L df))"
    using invalid_warning_iff [OF run] by simp
  fix f assume "f \<in> set fs"
  then obtain r where r: "r \<in> set (take 5 (failed_rows L df))" "f = failure_of r"
    unfolding fs by auto
  from r(1) have m: "r \<in> set (long_table L df)" "failed_mask L r"
    by (auto dest!: in_set_takeD simp: failed_rows_def)
  from m(2) have "val r \<noteq> NA" "to_numeric L (val r) = NA"
    by (simp_all add: failed_mask_def notna_def isna_def)
  with present_iff [OF run m(1)] m(1) r(2)
  show "\<exists>r \<in> set (long_table L df). f = failure_of r \<and> val r \<noteq> NA \<and> idx r \<notin> idx ` set out"
    by blast
next
  assume "failed_rows L df \<noteq> []"
  then show "\<exists>fs rest. InvalidValues fs rest \<in> set ws"
    using invalid_warning_iff [OF run] by blast
qed

text \<open>
  In the scenario the row of 2021 is present in the long table, absent from the table
  returned, and among the failures.
\<close>

theorem failures_are_the_absent_cells_witness:
  "process_dataframe sample_lib scenario = Inr (scenario_out, scenario_warnings) \<and>
   long_table sample_lib scenario ! 1 \<in> set (long_table sample_lib scenario) \<and>
   val (long_table sample_lib scenario ! 1) \<noteq> NA \<and>
   idx (long_table sample_lib scenario ! 1) \<notin> idx ` set scenario_out \<and>
   long_table sample_lib scenario ! 1 \<in> set (failed_rows sample_lib scenario)"
proof -
  have run: "process_dataframe sample_lib scenario = Inr (scenario_out, scenario_warnings)"
    by code_simp
  have r: "long_table sample_lib scenario ! 1 \<in> set (long_table sample_lib scenario)" by code_simp
  have v: "val (long_table sample_lib scenario ! 1) \<noteq> NA" by code_simp
  have a: "idx (long_table sample_lib scenario ! 1) \<notin> idx ` set scenario_out" by code_simp
  from failures_are_the_absent_cells [OF run] run r v a show ?thesis by blast
qed

text \<open>
  C3. Two year columns with different labels that are renamed to the same year are both
  value columns of the long table, each with that year: every raw row has one long row
  per column, with different indices, the same indicator name and the same year, and
  when both cells coerce to numbers both rows are in the table returned. Nothing is
  merged.
\<close>

theorem same_year_columns_kept:
  assumes wf: "well_formed df"
    and run: "process_dataframe L df = Inr (out, ws)"
    and i: "i < length (rows df)"
    and p: "year_column L df p" and q: "year_column L df q"
    and pq: "p \<noteq> q"
    and y: "year_label L (columns df ! p) = y" "year_label L (columns df ! q) = y"
  shows "(p, y) \<in> set (year_columns L df) \<and> (q, y) \<in> set (year_columns L df) \<and>
         (\<exists>r \<in> set (long_table L df). \<exists>r' \<in> set (long_table L df).
            idx r \<noteq> idx r' \<and> year r = y \<and> year r' = y \<and>
            indicator r = lookup (columns df) (rows df ! i) col_indicator \<and>
            indicator r' = lookup (columns df) (rows df ! i) col_indicator \<and>
            val r = rows df ! i ! p \<and> val r' = rows df ! i ! q) \<and>
         (\<forall>x x'. to_numeric L (rows df ! i ! p) = Num x \<longrightarrow>
                 to_numeric L (rows df ! i ! q) = Num x' \<longrightarrow>
            (\<exists>n \<in> set out. \<exists>n' \<in> set out.
               idx n \<noteq> idx n' \<and> year n = y \<and> year n' = y \<and>
               indicator n = lookup (columns df) (rows df ! i) col_indicator \<and>
               indicator n' = lookup (columns df) (rows df ! i) col_indicator \<and>
               val n = Num x \<and> val n' = Num x'))"
proof -
  from year_column_ex [OF p] y(1) obtain k where k: "k < length (year_columns L df)"
    "year_columns L df ! k = (p, y)" by auto
  from year_column_ex [OF q] y(2) obtain k' where k': "k' < length (year_columns L df)"
    "year_columns L df ! k' = (q, y)" by auto
  from k(2) k'(2) pq have kk: "k \<noteq> k'" by auto
  then have ne: "k * length (rows df) + i \<noteq> k' * length (rows df) + i"
    using i by auto
  have 1: "(p, y) \<in> set (year_columns L df) \<and> (q, y) \<in> set (year_columns L df)"
    using k k' by (metis nth_mem)
  have 2: "\<exists>r \<in> set (long_table L df). \<exists>r' \<in> set (long_table L df).
            idx r \<noteq> idx r' \<and> year r = y \<and> year r' = y \<and>
            indicator r = lookup (columns df) (rows df ! i) col_indicator \<and>
            indicator r' = lookup (columns df) (rows df ! i) col_indicator \<and>
            val r = rows df ! i ! p \<and> val r' = rows df ! i ! q"
    using long_table_mem [OF wf k(1) i] long_table_mem [OF wf k'(1) i] ne
    by (intro bexI [of _ "cell_row L df k i"] bexI [of _ "cell_row L df k' i"])
       (simp_all add: k(2) k'(2))
  have 3: "\<exists>n \<in> set out. \<exists>n' \<in> set out.
               idx n \<noteq> idx n' \<and> year n = y \<and> year n' = y \<and>
               indicator n = lookup (columns df) (rows df ! i) col_indicator \<and>
               indicator n' = lookup (columns df) (rows df ! i) col_indicator \<and>
               val n = Num x \<and> val n' = Num x'"
    if x: "to_numeric L (rows df ! i ! p) = Num x" and x': "to_numeric L (rows df ! i ! q) = Num x'"
    for x x'
  proof -
    from cell_in_table [OF wf run k(1) i, of x] x k(2) obtain n where n: "n \<in> set out"
      "idx n = k * length (rows df) + i" "year n = y" "val n = Num x"
      "indicator n = lookup (columns df) (rows df ! i) col_indicator" by auto
    from cell_in_table [OF wf run k'(1) i, of x'] x' k'(2) obtain n' where n': "n' \<in> set out"
      "idx n' = k' * length (rows df) + i" "year n' = y" "val n' = Num x'"
      "indicator n' = lookup (columns df) (rows df ! i) col_indicator" by auto
    from n n' ne show ?thesis by (intro bexI [of _ n] bexI [of _ n']) simp_all
  qed
  from 1 2 3 show ?thesis by blast
qed

text \<open>
  The labels \<^verbatim>\<open>2021\<close> and \<^verbatim>\<open>2021\<close> with the character for "year" give two rows of
  the year 2021 for the one indicator.
\<close>

theorem same_year_columns_kept_witness:
  "well_formed same_year \<and>
   (3, 2021) \<in> set (year_columns sample_lib same_year) \<and> (5, 2021) \<in> set (year_columns sample_lib same_year) \<and>
   process_dataframe sample_lib same_year = Inr (same_year_out, []) \<and>
   (\<exists>n \<in> set same_year_out. \<exists>n' \<in> set same_year_out.
      idx n \<noteq> idx n' \<and> year n = 2021 \<and> year n' = 2021 \<and>
      indicator n = Str (ascii ''M1'') \<and> indicator n' = Str (ascii ''M1'') \<and>
      val n = Num (Fin 8) \<and> val n' = Num (Fin 9))"
proof -
  have wf: "well_formed same_year" by code_simp
  have run: "process_dataframe sample_lib same_year = Inr (same_year_out, [])" by code_simp
  have i: "(0::nat) < length (rows same_year)" by code_simp
  have p: "year_column sample_lib same_year 3" and q: "year_column sample_lib same_year 5" by code_simp+
  have pq: "(3::nat) \<noteq> 5" by simp
  have y: "year_label sample_lib (columns same_year ! 3) = 2021" "year_label sample_lib (columns same_year ! 5) = 2021"
    by code_simp+
  have c: "to_numeric sample_lib (rows same_year ! 0 ! 3) = Num (Fin 8)"
    "to_numeric sample_lib (rows same_year ! 0 ! 5) = Num (Fin 9)"
    "lookup (columns same_year) (rows same_year ! 0) col_indicator = Str (ascii ''M1'')"
    by code_simp+
  from same_year_columns_kept [OF wf run i p q pq y] c wf run show ?thesis
    by simp
qed

text \<open>
  C4. For a frame with \<open>N\<close> rows and \<open>M\<close> year columns on which the function returns,
  the table has at most \<open>N * M\<close> rows, and exactly \<open>N * M\<close> if and only if no cell of
  a year column is missing or fails the coercion to a number.
\<close>

theorem row_count:
  assumes wf: "well_formed df"
    and run: "process_dataframe L df = Inr (out, ws)"
  shows "length out \<le> length (rows df) * length (cleaned_colnames_map L df) \<and>
         (length out = length (rows df) * length (cleaned_colnames_map L df) \<longleftrightarrow>
            (\<forall>i < length (rows df). \<forall>p. year_column L df p \<longrightarrow>
               to_numeric L (rows df ! i ! p) \<noteq> NA))"
proof -
  let ?long = "long_table L df"
  have len: "length out = length (filter (\<lambda>r. to_numeric L (val r) \<noteq> NA) ?long)"
  proof -
    have "length out = length (map long_row.truncate out)" by simp
    also have "\<dots> = length (dropna (map (coerce L) ?long))"
      by (simp only: process_dataframe_Inr(4) [OF run])
    also have "\<dots> = length (filter (\<lambda>r. to_numeric L (val r) \<noteq> NA) ?long)"
      by (simp add: dropna_def filter_map comp_def coerce_def notna_def)
    finally show ?thesis .
  qed
  have total: "length ?long = length (rows df) * length (cleaned_colnames_map L df)"
    by (simp add: length_long_table mult.commute)
  have "length out \<le> length (rows df) * length (cleaned_colnames_map L df)"
    unfolding len total [symmetric] by (rule length_filter_le)
  moreover have "length out = length (rows df) * length (cleaned_colnames_map L df) \<longleftrightarrow>
      (\<forall>r \<in> set ?long. to_numeric L (val r) \<noteq> NA)"
    unfolding len total [symmetric] by (rule length_filter_eq_iff)
  ultimately show ?thesis
    using all_cells_iff [OF wf, of L "\<lambda>c. to_numeric L c \<noteq> NA"] by simp
qed

text \<open>In the scenario one of the two cells is \<^verbatim>\<open>N/A\<close>, and the table has one row of two.\<close>

theorem row_count_witness:
  "well_formed scenario \<and> process_dataframe sample_lib scenario = Inr (scenario_out, scenario_warnings) \<and>
   length scenario_out \<le> length (rows scenario) * length (cleaned_colnames_map sample_lib scenario) \<and>
   length scenario_out \<noteq> length (rows scenario) * length (cleaned_colnames_map sample_lib scenario)"
proof -
  have wf: "well_formed scenario" by code_simp
  have run: "process_dataframe sample_lib scenario = Inr (scenario_out, scenario_warnings)"
    by code_simp
  have ne: "length scenario_out \<noteq> length (rows scenario) * length (cleaned_colnames_map sample_lib scenario)"
    by code_simp
  from row_count [OF wf run] wf run ne show ?thesis by blast
qed

text \<open>
  C5. The function stops with the message about an empty file exactly when the frame
  has no row or no column, and with the message naming the missing columns exactly when
  the frame is not empty and a required column is absent (\<open>fatal_errors\<close>). On a
  well-formed frame that passes both checks it returns, whatever is duplicated and
  whatever fails the coercion, provided the indicator cells are texts, no unit cell is a
  number, the library adds the unit column, and no column bears the label the value
  column is to get (\<open>returns_on_text_identifiers\<close>). The warning about duplicates is
  built with \<^verbatim>\<open>', '.join(duplicates)\<close>, though, which accepts strings only: when the
  duplicated indicator cell is missing, or is a number, the function raises
  \<^verbatim>\<open>TypeError\<close> instead of warning and returning.
\<close>

theorem duplicate_non_text_raises:
  "process_dataframe sample_lib blank_names = Inl TypeError \<and>
   process_dataframe sample_lib numeric_names = Inl TypeError"
  by code_simp

text \<open>
  C6. A row of the long table whose value cell is missing (\<^verbatim>\<open>NaN\<close>, the cell the
  reader makes of an empty one) is dropped without a trace:
  no row of the table returned carries its index, it is not among the rows that failed,
  and the warning about invalid values accounts for the failed rows only, each entry
  holding a raw value that is present and does not coerce to a number.
\<close>

theorem blank_dropped_silently:
  assumes run: "process_dataframe L df = Inr (out, ws)"
    and r: "r \<in> set (long_table L df)"
    and blank: "val r = NA"
  shows "idx r \<notin> idx ` set out \<and>
         r \<notin> set (failed_rows L df) \<and>
         (\<forall>fs rest. InvalidValues fs rest \<in> set ws \<longrightarrow>
            length fs + (case rest of None \<Rightarrow> 0 | Some n \<Rightarrow> n) = length (failed_rows L df) \<and>
            (\<forall>f \<in> set fs. f_raw f \<noteq> NA \<and> to_numeric L (f_raw f) = NA))"
proof (intro conjI allI impI)
  show "idx r \<notin> idx ` set out"
    using present_iff [OF run r] blank by (simp add: to_numeric_def)
  show "r \<notin> set (failed_rows L df)"
    using blank by (simp add: failed_rows_def failed_mask_def notna_def)
next
  fix fs rest
  assume "InvalidValues fs rest \<in> set ws"
  then have fs: "fs = map failure_of (take 5 (failed_rows L df))"
    and rest: "rest = (if 5 < length (failed_rows L df) then Some (length (failed_rows L df) - 5) else None)"
    using invalid_warning_iff [OF run] by simp_all
  show "length fs + (case rest of None \<Rightarrow> 0 | Some n \<Rightarrow> n) = length (failed_rows L df)"
    unfolding fs rest by simp
  show "\<forall>f \<in> set fs. f_raw f \<noteq> NA \<and> to_numeric L (f_raw f) = NA"
  proof
    fix f assume "f \<in> set fs"
    then obtain x where "x \<in> set (take 5 (failed_rows L df))" "f = failure_of x"
      unfolding fs by auto
    then have "failed_mask L x" "f_raw f = val x"
      by (auto dest!: in_set_takeD simp: failed_rows_def failure_of_def)
    then show "f_raw f \<noteq> NA \<and> to_numeric L (f_raw f) = NA"
      by (simp add: failed_mask_def notna_def isna_def)
  qed
qed

text \<open>
  With a missing cell for 2019 and \<^verbatim>\<open>N/A\<close> for 2021 the table is empty and the
  only failure reported is the one of 2021.
\<close>

theorem blank_dropped_silently_witness:
  "process_dataframe sample_lib with_blank =
     Inr ([], [InvalidValues [\<lparr>f_indicator = Str (ascii ''M1''), f_year = 2021, f_raw = Str (ascii ''N/A'')\<rparr>] None]) \<and>
   hd (long_table sample_lib with_blank) \<in> set (long_table sample_lib with_blank) \<and>
   val (hd (long_table sample_lib with_blank)) = NA \<and>
   hd (long_table sample_lib with_blank) \<notin> set (failed_rows sample_lib with_blank) \<and>
   length (failed_rows sample_lib with_blank) = 1"
proof -
  have run: "process_dataframe sample_lib with_blank =
     Inr ([], [InvalidValues [\<lparr>f_indicator = Str (ascii ''M1''), f_year = 2021, f_raw = Str (ascii ''N/A'')\<rparr>] None])"
    by code_simp
  have r: "hd (long_table sample_lib with_blank) \<in> set (long_table sample_lib with_blank)" by code_simp
  have blank: "val (hd (long_table sample_lib with_blank)) = NA" by code_simp
  from blank_dropped_silently [OF run r blank] run r blank show ?thesis by simp
qed

text \<open>
  C7. The claim asks for every row of the table to have a category, an indicator name
  and a unit that are not null and a value that is finite. The function only drops the
  rows whose value is \<^verbatim>\<open>NaN\<close> (\<^verbatim>\<open>dropna(subset=[...])\<close> names the value column alone): a row
  whose category cell is missing and whose value is an infinity comes through as it is.
\<close>

theorem null_category_counterexample:
  "process_dataframe sample_lib blank_category =
     Inr ([\<lparr>idx = 0, category = NA, indicator = Str (ascii ''M1''), unit = Str (ascii ''%''),
            year = 2019, val = Num PosInf, label = Str (ascii ''inf %'')\<rparr>], [])"
  by code_simp

text \<open>
  C7, as amended: every row of the table returned stems from one raw row and one
  year column; its year is the integer read from that column's label, its value is the
  number the raw cell coerces to (so it is never null), and its category, indicator
  name and unit are the raw row's identifier cells unchanged, null where those are
  missing.
\<close>

theorem output_row_fields:
  assumes wf: "well_formed df"
    and run: "process_dataframe L df = Inr (out, ws)"
    and n: "n \<in> set out"
  shows "\<exists>i < length (rows df). \<exists>p x.
           year_column L df p \<and>
           year n = year_label L (columns df ! p) \<and>
           to_numeric L (rows df ! i ! p) = Num x \<and> val n = Num x \<and>
           category n = lookup (columns df) (rows df ! i) col_form \<and>
           indicator n = lookup (columns df) (rows df ! i) col_indicator \<and>
           unit n = lookup (columns df) (rows df ! i) col_unit"
proof -
  from out_origin [OF run n] obtain r x where r: "r \<in> set (long_table L df)"
    "to_numeric L (val r) = Num x" "long_row.truncate n = r\<lparr>val := Num x\<rparr>" by blast
  from long_table_cases [OF wf r(1)] obtain k i where ki: "k < length (year_columns L df)"
    "i < length (rows df)" "r = cell_row L df k i" by blast
  let ?p = "fst (year_columns L df ! k)"
  have eq: "long_row.truncate n = (cell_row L df k i)\<lparr>val := Num x\<rparr>"
    using r(3) ki(3) by simp
  have f: "year n = snd (year_columns L df ! k)" "val n = Num x"
    "category n = lookup (columns df) (rows df ! i) col_form"
    "indicator n = lookup (columns df) (rows df ! i) col_indicator"
    "unit n = lookup (columns df) (rows df ! i) col_unit"
    using arg_cong [OF eq, of year] arg_cong [OF eq, of val] arg_cong [OF eq, of category]
      arg_cong [OF eq, of indicator] arg_cong [OF eq, of unit]
    by (simp_all add: cell_row_def)
  have "to_numeric L (rows df ! i ! ?p) = Num x"
    using r(2) ki(3) by (simp add: cell_row_def)
  with f year_columns_nth [OF ki(1)] ki(2) show ?thesis by auto
qed

text \<open>
  The row of the frame above is such a row.
\<close>

theorem output_row_fields_witness:
  "well_formed blank_category \<and>
   (\<exists>i < length (rows blank_category). \<exists>p x.
      year_column sample_lib blank_category p \<and>
      to_numeric sample_lib (rows blank_category ! i ! p) = Num x \<and> x = PosInf \<and>
      NA = lookup (columns blank_category) (rows blank_category ! i) col_form)"
proof -
  have wf: "well_formed blank_category" by code_simp
  have run: "process_dataframe sample_lib blank_category =
     Inr ([\<lparr>idx = 0, category = NA, indicator = Str (ascii ''M1''), unit = Str (ascii ''%''),
            year = 2019, val = Num PosInf, label = Str (ascii ''inf %'')\<rparr>], [])"
    by code_simp
  from output_row_fields [OF wf run, of "\<lparr>idx = 0, category = NA, indicator = Str (ascii ''M1''), unit = Str (ascii ''%''),
            year = 2019, val = Num PosInf, label = Str (ascii ''inf %'')\<rparr>"] wf
  show ?thesis by auto
qed

text \<open>
  C8. The claim is that an indicator name borne by more than one raw row is recorded
  once as a duplicate and that all the rows bearing it reach the table. The run that
  records it has to return, and it does not when some duplicated indicator cell is no
  text: \<^verbatim>\<open>', '.join(duplicates)\<close> raises \<^verbatim>\<open>TypeError\<close>. On the frame below \<^verbatim>\<open>M1\<close> is
  on two rows and two other rows have no indicator name; nothing is recorded and no row
  reaches a table.
\<close>

theorem duplicate_text_name_unreported:
  "2 \<le> count_list (column mixed_duplicates col_indicator) (Str (ascii ''M1'')) \<and>
   2 \<le> count_list (column mixed_duplicates col_indicator) NA \<and>
   process_dataframe sample_lib mixed_duplicates = Inl TypeError"
  by code_simp

text \<open>
  C9. The claim is that every column outside the identifier columns whose label has no
  digit is left out of the value columns without any error. The function does leave such
  a column out of the columns it asks \<^verbatim>\<open>melt\<close> for, but it asks \<^verbatim>\<open>melt\<close> to name the value
  column by the characters for "value", and \<^verbatim>\<open>melt\<close> refuses a frame that has a column of
  that label already: with such a column, whose label has no digit, the function raises
  \<^verbatim>\<open>ValueError\<close>, where on the same frame without the column it returns the table and
  the warning of the scenario.
\<close>

theorem value_named_column_raises:
  "columns with_value_column ! 4 \<notin> set REQUIRED_COLS \<and>
   digits_of sample_lib (columns with_value_column ! 4) = [] \<and>
   process_dataframe sample_lib with_value_column = Inl ValueError \<and>
   drop_column 4 with_value_column = scenario \<and>
   process_dataframe sample_lib scenario = Inr (scenario_out, scenario_warnings)"
  by code_simp

text \<open>
  C10. A call on the address of a frame leaves every object that was in the store as it
  was, the frame it was called on among them: the copy, the long table and the finished
  table are new objects, and every change in place is made to one of those. The outcome
  is the one \<open>process_dataframe\<close> computes from the frame, and the table is found at the
  address returned, which is not the address of the input.
\<close>

theorem input_frame_unchanged:
  assumes a: "a < length h" and f: "h ! a = Frame raw"
  shows "\<exists>res h'. process_dataframe_store L h a = Some (res, h') \<and>
           take (length h) h' = h \<and> h' ! a = Frame raw \<and>
           (case res of
              Inl e \<Rightarrow> process_dataframe L raw = Inl e
            | Inr (b, ws) \<Rightarrow> b \<noteq> a \<and>
                (\<exists>out. process_dataframe L raw = Inr (out, ws) \<and> fetch h' b = Some (Table out)))"
proof -
  have fe: "fetch h a = Some (Frame raw)"
    using a f by (simp add: fetch_def)
  show ?thesis
  proof (cases "empty raw")
    case True
    then show ?thesis
      using f by (simp add: process_dataframe_store_def fe process_dataframe_unfold)
  next
    case ne: False
    show ?thesis
    proof (cases "filter (\<lambda>col. col \<notin> set (columns raw)) REQUIRED_COLS = []")
      case False
      then show ?thesis
        using ne a f
        by (simp add: process_dataframe_store_def fe process_dataframe_unfold alloc_def Let_def
                      nth_append)
    next
      case m: True
      show ?thesis
      proof (cases "check_duplicates raw")
        case (Inl e)
        then show ?thesis
          using ne m a f
          by (simp add: process_dataframe_store_def fe process_dataframe_unfold alloc_def Let_def
                        nth_append)
      next
        case (Inr w1)
        show ?thesis
        proof (cases "value_name_taken L raw")
          case True
          then show ?thesis
            using ne m Inr a f
            by (simp add: process_dataframe_store_def fe process_dataframe_unfold alloc_def
                          Let_def melt_long_table nth_append)
        next
          case free: False
          show ?thesis
          proof (cases "label_column L (column raw col_unit)
                          (dropna (map (coerce L) (long_table L raw)))")
            case None
            then have "process_dataframe L raw = Inl TypeError"
              using ne m Inr free
              by (simp add: process_dataframe_unfold label_column_def split: if_splits)
            with None show ?thesis
              using ne m Inr free a f
              by (simp add: process_dataframe_store_def fe alloc_def Let_def melt_long_table
                            nth_append)
          next
            case (Some out)
            then have "process_dataframe L raw =
                Inr (out, w1 @ coercion_warning L (long_table L raw))"
              using ne m Inr free
              by (simp add: process_dataframe_unfold label_column_def split: if_splits)
            with Some show ?thesis
              using ne m Inr free a f
              by (simp add: process_dataframe_store_def fe alloc_def Let_def melt_long_table
                            nth_append fetch_def)
          qed
        qed
      qed
    qed
  qed
qed

text \<open>
  Called on a store that holds the scenario at address 0, the function leaves the
  scenario there and puts the table at address 2.
\<close>

theorem input_frame_unchanged_witness:
  "(0::nat) < length [Frame scenario] \<and> [Frame scenario] ! 0 = Frame scenario \<and>
   (\<exists>res h'. process_dataframe_store sample_lib [Frame scenario] 0 = Some (res, h') \<and>
      take 1 h' = [Frame scenario] \<and> h' ! 0 = Frame scenario \<and>
      res = Inr (2, scenario_warnings) \<and> fetch h' 2 = Some (Table scenario_out))"
proof -
  have a: "(0::nat) < length [Frame scenario]" by simp
  have f: "[Frame scenario] ! 0 = Frame scenario" by simp
  have run: "process_dataframe sample_lib scenario = Inr (scenario_out, scenario_warnings)"
    by code_simp
  have r: "fst (the (process_dataframe_store sample_lib [Frame scenario] 0)) = Inr (2, scenario_warnings)"
    by code_simp
  from input_frame_unchanged [OF a f, of sample_lib] obtain res h' where
    h: "process_dataframe_store sample_lib [Frame scenario] 0 = Some (res, h')"
      "take (length [Frame scenario]) h' = [Frame scenario]" "h' ! 0 = Frame scenario"
      "case res of Inl e \<Rightarrow> process_dataframe sample_lib scenario = Inl e
       | Inr (b, ws) \<Rightarrow> b \<noteq> 0 \<and>
           (\<exists>out. process_dataframe sample_lib scenario = Inr (out, ws) \<and>
                  fetch h' b = Some (Table out))"
    by blast
  from r h(1) have res: "res = Inr (2, scenario_warnings)" by simp
  from h(4) have "fetch h' 2 = Some (Table scenario_out)"
    unfolding res using run by simp
  with h res a f show ?thesis by auto
qed

end
